theory Spec2Isabelle
  imports Complex_Main
begin

section \<open>The virtual list component of \<open>src/List.tsx\<close>\<close>

text \<open>
  The component is a React class with mutable instance fields. It is modelled by explicit
  state passing: every method takes the instance and returns the updated instance, or an
  error where the JavaScript would throw.

  JavaScript numbers that hold pixels and fractions are modelled as rationals, so rounding
  of IEEE doubles is abstracted away; indices (results of \<open>Math.floor\<close> and
  \<open>Math.ceil\<close>, array positions) are integers. \<open>null\<close> is \<open>None\<close>.

  The theory covers \<open>List.tsx\<close>. The helpers it imports from \<open>./utils/itemUtil\<close> and
  \<open>./utils/algorithmUtil\<close> are modelled from the specification; each such definition
  says so. React applies \<open>setState\<close> later, in the order of the calls; here it is applied
  at once, which gives the same state, since no method reads a field it has just set.
\<close>

subsection \<open>Data\<close>

datatype 'k key = GHOST_ITEM_KEY | ItemKey 'k | NullKey

datatype status = NONE | MEASURE_START | MEASURE_DONE

text \<open>\<open>RelativeScroll itemIndex relativeTop\<close>, and the argument of \<open>scrollTo\<close>,
  which is \<open>number | RelativeScroll\<close>.\<close>

datatype RelativeScroll = RelativeScroll int rat

datatype scrollArg = ArgNumber rat | ArgObject RelativeScroll

text \<open>\<open>TypeError\<close>: a property of \<open>this.listRef.current\<close> is read while the ref is
  \<open>null\<close>. \<open>NonFinite\<close>: \<open>Math.ceil(height / itemHeight)\<close> is \<open>NaN\<close> or infinite
  (\<open>height\<close> undefined, or \<open>itemHeight\<close> zero); JavaScript would go on with that value,
  rationals have none, and the model stops there. \<open>Hang\<close>: the search loop of \<open>scrollTo\<close>
  runs forever, so the call never returns.\<close>

datatype error = TypeError | NonFinite | Hang

text \<open>The callbacks handed to \<open>requestAnimationFrame\<close> by \<open>scrollTo\<close>:
  \<open>() => { this.lockScroll = false }\<close> and \<open>() => { requestAnimationFrame(cb) }\<close>.\<close>

datatype frameCallback = SetLockFalse | RequestFrame frameCallback

record rangeIndex =
  itemIndex :: int
  itemOffsetPtg :: rat
  startIndex :: int
  endIndex :: int

record ListState = rangeIndex +
  status :: status
  scrollTop :: "rat option"
  startItemTop :: rat

record ('a, 'k) ListProps =
  dataSource :: "'a list"
  height :: "rat option"
  itemHeight :: rat
  itemKey :: "'a \<Rightarrow> 'k"
  disabled :: bool

text \<open>The DOM node behind \<open>listRef.current\<close>, as far as the component reads it.\<close>

record element =
  el_scrollTop :: rat
  el_scrollHeight :: rat
  el_clientHeight :: rat

text \<open>The instance. \<open>itemElements\<close> maps the key of a mounted item to the height the
  rendering surface measures for it; \<open>cachedProps = None\<close> is the initial \<open>{}\<close>;
  \<open>animationFrames\<close> holds the callbacks waiting for the next animation frame.\<close>

record ('a, 'k) VirtualList =
  props :: "('a, 'k) ListProps"
  state :: ListState
  listRef :: "element option"
  itemElements :: "'k key \<rightharpoonup> rat"
  itemElementHeights :: "'k key \<rightharpoonup> rat"
  cachedProps :: "('a, 'k) ListProps option"
  lockScroll :: bool
  animationFrames :: "frameCallback list"

definition initialState :: ListState where
  "initialState =
     \<lparr> itemIndex = 0, itemOffsetPtg = 0, startIndex = 0, endIndex = 0,
       status = NONE, scrollTop = None, startItemTop = 0 \<rparr>"

definition newList :: "('a, 'k) ListProps \<Rightarrow> element option \<Rightarrow> ('a, 'k) VirtualList" where
  "newList p el =
     \<lparr> props = p, state = initialState, listRef = el, itemElements = Map.empty,
       itemElementHeights = Map.empty, cachedProps = None, lockScroll = False,
       animationFrames = [] \<rparr>"

text \<open>\<open>Number.MAX_VALUE\<close>, the largest finite double, \<open>(2 ^ 53 - 1) * 2 ^ 971\<close>, written
  out so that it is evaluated as a numeral.\<close>

definition Number_MAX_VALUE :: rat where
  "Number_MAX_VALUE =
     179769313486231570814527423731704356798070567525844996598917476803157260780028538760589558632766878171540458953514382464234321326889464182768467546703537516986049910576551282076245490090389328944075868508455133942304583236903222948165808559332123348274797826204144723168738177180919299881250404026184124858368"

text \<open>A \<open>null\<close> used in arithmetic counts as 0.\<close>

definition nullToZero :: "rat option \<Rightarrow> rat" where
  "nullToZero x = (case x of None \<Rightarrow> 0 | Some v \<Rightarrow> v)"

text \<open>\<open>itemElementHeights[key] || 0\<close>.\<close>

definition heightOrZero :: "('k key \<rightharpoonup> rat) \<Rightarrow> 'k key \<Rightarrow> rat" where
  "heightOrZero hs k = (case hs k of None \<Rightarrow> 0 | Some h \<Rightarrow> h)"

subsection \<open>Helpers that are not in \<open>List.tsx\<close>\<close>

definition clamp01 :: "rat \<Rightarrow> rat" where
  "clamp01 x = max 0 (min 1 x)"

text \<open>Modelled from the spec: \<open>getScrollPercentage\<close> of \<open>utils/itemUtil\<close> is missing.
  Spec 4.1: \<open>fraction = scrollOffset / max(1, scrollableHeight - viewportHeight)\<close>,
  clamped to [0,1], and 0 when the content fits the viewport; spec 7: a zero or negative
  \<open>scrollableHeight - viewportHeight\<close> gives the fraction 0.\<close>

definition getScrollPercentage :: "rat \<Rightarrow> rat \<Rightarrow> rat \<Rightarrow> rat" where
  "getScrollPercentage scrollOffset scrollableHeight viewportHeight =
     (if scrollableHeight - viewportHeight \<le> 0 then 0
      else clamp01 (scrollOffset / max 1 (scrollableHeight - viewportHeight)))"

text \<open>Modelled from the spec: \<open>getElementScrollPercentage\<close> of \<open>utils/itemUtil\<close> is
  missing. It is the Percentage Mapper applied to the extents of the scrollable
  container.\<close>

definition getElementScrollPercentage :: "element \<Rightarrow> rat" where
  "getElementScrollPercentage el =
     getScrollPercentage (el_scrollTop el) (el_scrollHeight el) (el_clientHeight el)"

text \<open>Modelled from the spec: \<open>getRangeIndex\<close> of \<open>utils/itemUtil\<close> is missing.
  Spec 4.2: the located index is \<open>floor(fraction * n)\<close> clamped to \<open>[0, n]\<close>, where \<open>n\<close>
  is the sentinel; the offset fraction is the fractional remainder within the slice, zero
  for the sentinel; the window extends a half-capacity buffer before and after the
  located index, is clamped to \<open>[0, n - 1]\<close> and always holds at least \<open>min(v, n)\<close> items.
  The spec leaves the exact policy open (section 9). Here the half capacity is rounded up,
  and where the clamp cuts the buffer short on one side the window is extended on the
  other side until it holds \<open>min(v, n)\<close> items.\<close>

definition getRangeIndex :: "rat \<Rightarrow> int \<Rightarrow> int \<Rightarrow> rangeIndex" where
  "getRangeIndex scrollPtg itemCount visibleCount =
     (let located = max 0 (min itemCount \<lfloor>scrollPtg * of_int itemCount\<rfloor>);
          half = (visibleCount + 1) div 2;
          before = max 0 (located - half);
          after = min (itemCount - 1) (located + half)
      in \<lparr> itemIndex = located,
           itemOffsetPtg =
             (if located = itemCount then 0 else frac (scrollPtg * of_int itemCount)),
           startIndex = max 0 (min before (after - visibleCount + 1)),
           endIndex = min (itemCount - 1) (max after (before + visibleCount - 1)) \<rparr>)"

text \<open>Modelled from the spec: \<open>getNodeHeight\<close> of \<open>utils/itemUtil\<close> is missing. The
  rendering surface reports the pixel height of a mounted item; an item that is not
  mounted degrades to zero (spec 7, MissingItemError).\<close>

definition getNodeHeight :: "rat option \<Rightarrow> rat" where
  "getNodeHeight e = (case e of None \<Rightarrow> 0 | Some h \<Rightarrow> h)"

text \<open>Modelled from the spec: \<open>getItemRelativeTop\<close> of \<open>utils/itemUtil\<close> is missing.
  Spec 4.4: the offset fraction of the located item times its own ledger height is the
  pixel offset inside the item, which is taken off the proportional position of the
  scroll fraction in the viewport. The call site passes no default height, so an
  unmeasured item counts as 0, as everywhere in \<open>List.tsx\<close>.\<close>

definition getItemRelativeTop ::
  "int \<Rightarrow> rat \<Rightarrow> ('k key \<rightharpoonup> rat) \<Rightarrow> rat \<Rightarrow> rat \<Rightarrow> (int \<Rightarrow> 'k key) \<Rightarrow> rat" where
  "getItemRelativeTop locatedIndex offsetPtg hs scrollPtg clientHeight getKey =
     scrollPtg * clientHeight - offsetPtg * heightOrZero hs (getKey locatedIndex)"

text \<open>Modelled from the spec: \<open>getItemAbsoluteTop\<close> of \<open>utils/itemUtil\<close> is missing.
  Spec 4.4: the relative top anchored at the current scroll offset.\<close>

definition getItemAbsoluteTop ::
  "int \<Rightarrow> rat \<Rightarrow> ('k key \<rightharpoonup> rat) \<Rightarrow> rat \<Rightarrow> rat \<Rightarrow> rat \<Rightarrow> (int \<Rightarrow> 'k key) \<Rightarrow> rat" where
  "getItemAbsoluteTop locatedIndex offsetPtg hs scrollOffset scrollPtg clientHeight getKey =
     scrollOffset + getItemRelativeTop locatedIndex offsetPtg hs scrollPtg clientHeight getKey"

text \<open>Modelled from the spec: \<open>getCompareItemRelativeTop\<close> of \<open>utils/itemUtil\<close> is
  missing. Spec 4.4: from the located item, walk the ledger to the target index,
  subtracting heights when walking backward toward \<open>startIndex\<close> and adding them when
  walking forward toward \<open>endIndex\<close>; the walk never leaves the window.\<close>

definition getCompareItemRelativeTop ::
  "rat \<Rightarrow> int \<Rightarrow> int \<Rightarrow> int \<Rightarrow> int \<Rightarrow> (int \<Rightarrow> 'k key) \<Rightarrow> ('k key \<rightharpoonup> rat) \<Rightarrow> rat" where
  "getCompareItemRelativeTop locatedItemRelativeTop locatedItemIndex compareItemIndex
       start end getKey hs =
     (if compareItemIndex \<le> locatedItemIndex then
        locatedItemRelativeTop
          - sum_list (map (\<lambda>i. heightOrZero hs (getKey i))
                       [max compareItemIndex start .. locatedItemIndex - 1])
      else
        locatedItemRelativeTop
          + sum_list (map (\<lambda>i. heightOrZero hs (getKey i))
                       [locatedItemIndex .. min compareItemIndex (end + 1) - 1]))"

text \<open>Modelled from the spec: \<open>findListDiffIndex\<close> of \<open>utils/algorithmUtil\<close> is missing.
  Spec 4.5: the first index at which the old and the new collection diverge, by key
  comparison, scanning from the front.\<close>

fun findListDiffIndex :: "'a list \<Rightarrow> 'a list \<Rightarrow> ('a \<Rightarrow> 'k) \<Rightarrow> int" where
  "findListDiffIndex (x # xs) (y # ys) getKey =
     (if getKey x = getKey y then 1 + findListDiffIndex xs ys getKey else 0)"
| "findListDiffIndex _ _ getKey = 0"

text \<open>Modelled from the spec: \<open>getIndexByStartLoc\<close> of \<open>utils/algorithmUtil\<close> is
  missing. Spec 4.6: the candidates lie in \<open>[min, max]\<close> and are ordered by expanding
  distance from \<open>start\<close>, alternately on both sides while both have room and
  sequentially on the remaining side afterwards.\<close>

definition getIndexByStartLoc :: "rat \<Rightarrow> rat \<Rightarrow> rat \<Rightarrow> int \<Rightarrow> rat" where
  "getIndexByStartLoc lo hi start index =
     (let beforeCount = start - lo;
          afterCount = hi - start;
          balanceCount = 2 * min beforeCount afterCount
      in if of_int index \<le> balanceCount then
           (if odd index then start + of_int (index div 2) + 1
            else start - of_int (index div 2))
         else if beforeCount > afterCount then start - (of_int index - afterCount)
         else start + (of_int index - beforeCount))"

subsection \<open>Keys and measurement (\<open>List.tsx\<close> lines 256-289)\<close>

text \<open>\<open>getItemKey\<close>: \<open>item ? item[itemKey] : null\<close>; \<open>None\<close> is an \<open>undefined\<close> item.\<close>

definition getItemKey :: "('a, 'k) ListProps \<Rightarrow> 'a option \<Rightarrow> 'k key" where
  "getItemKey p item = (case item of None \<Rightarrow> NullKey | Some x \<Rightarrow> ItemKey (itemKey p x))"

text \<open>\<open>getIndexKey\<close> on the merged props (\<open>props || this.props\<close>). With the initial
  \<open>cachedProps = {}\<close> the data source defaults to the empty array. An index that has no
  item is only reported on the console and yields the \<open>null\<close> key.\<close>

definition getIndexKey :: "('a, 'k) ListProps option \<Rightarrow> int \<Rightarrow> 'k key" where
  "getIndexKey mergedProps index =
     (case mergedProps of
        None \<Rightarrow> (if index = 0 then GHOST_ITEM_KEY else NullKey)
      | Some p \<Rightarrow>
          (if index = int (length (dataSource p)) then GHOST_ITEM_KEY
           else getItemKey p
                  (if 0 \<le> index \<and> index < int (length (dataSource p))
                   then Some (dataSource p ! nat index) else None)))"

definition collectItemHeights :: "('a, 'k) VirtualList \<Rightarrow> ('a, 'k) VirtualList" where
  "collectItemHeights inst =
     inst\<lparr> itemElementHeights :=
       fold (\<lambda>index hs.
               let eleKey = getIndexKey (Some (props inst)) index
               in hs(eleKey \<mapsto> getNodeHeight (itemElements inst eleKey)))
            [startIndex (state inst) .. endIndex (state inst)]
            (itemElementHeights inst) \<rparr>"

subsection \<open>\<open>onScroll\<close> (lines 227-254)\<close>

text \<open>\<open>Math.ceil(height / itemHeight)\<close>; \<open>None\<close> when the quotient is not a finite
  number.\<close>

definition visibleCount :: "rat option \<Rightarrow> rat \<Rightarrow> int option" where
  "visibleCount h ih =
     (case h of
        None \<Rightarrow> None
      | Some hv \<Rightarrow> if ih = 0 then None else Some \<lceil>hv / ih\<rceil>)"

definition setRange :: "rat \<Rightarrow> rangeIndex \<Rightarrow> ListState \<Rightarrow> ListState" where
  "setRange newScrollTop r s =
     s\<lparr> status := MEASURE_START, scrollTop := Some newScrollTop,
        itemIndex := itemIndex r, itemOffsetPtg := itemOffsetPtg r,
        startIndex := startIndex r, endIndex := endIndex r \<rparr>"

definition onScroll :: "('a, 'k) VirtualList \<Rightarrow> error + ('a, 'k) VirtualList" where
  "onScroll inst =
     (case listRef inst of
        None \<Rightarrow> Inl TypeError
      | Some el \<Rightarrow>
          if Some (el_scrollTop el) = scrollTop (state inst) \<or> lockScroll inst
               \<or> disabled (props inst)
          then Inr inst
          else
            (case visibleCount (height (props inst)) (itemHeight (props inst)) of
               None \<Rightarrow> Inl NonFinite
             | Some v \<Rightarrow>
                 Inr (inst\<lparr> state :=
                   setRange (el_scrollTop el)
                     (getRangeIndex (getElementScrollPercentage el)
                        (int (length (dataSource (props inst)))) v)
                     (state inst) \<rparr>)))"

text \<open>\<open>componentDidMount\<close> (lines 115-118).\<close>

definition componentDidMount :: "('a, 'k) VirtualList \<Rightarrow> error + ('a, 'k) VirtualList" where
  "componentDidMount inst =
     (case listRef inst of
        None \<Rightarrow> Inl TypeError
      | Some el \<Rightarrow> onScroll (inst\<lparr> listRef := Some (el\<lparr> el_scrollTop := 0 \<rparr>) \<rparr>))"

subsection \<open>\<open>scrollTo\<close> (lines 291-392)\<close>

text \<open>What happened to a candidate: its window does not hold the compared item, it
  improved the best similarity, or it did not.\<close>

datatype outcome = Skipped | Improved | Missed

datatype searchExit = IndexExhausted | MissBreak

text \<open>The local variables of the search loop. \<open>best\<close> bundles \<open>bestScrollTop\<close> with
  \<open>bestItemIndex\<close>, \<open>bestItemOffsetPtg\<close>, \<open>bestStartIndex\<close> and \<open>bestEndIndex\<close>, which are
  only ever assigned together; \<open>None\<close> is \<open>bestScrollTop === null\<close>. \<open>visited\<close> is not in
  the source: it records each candidate scroll offset the loop examined, in order.\<close>

record searchState =
  bestSimilarity :: rat
  best :: "(rat \<times> rangeIndex) option"
  missSimilarity :: nat
  visited :: "(rat \<times> outcome) list"

definition searchStart :: searchState where
  "searchStart =
     \<lparr> bestSimilarity = Number_MAX_VALUE, best = None, missSimilarity = 0, visited = [] \<rparr>"

definition scrollHeightOf :: "('a, 'k) VirtualList \<Rightarrow> rat" where
  "scrollHeightOf inst =
     of_nat (length (dataSource (props inst))) * itemHeight (props inst)"

definition maxScrollTopOf :: "('a, 'k) VirtualList \<Rightarrow> rat \<Rightarrow> rat" where
  "maxScrollTopOf inst clientHeight = scrollHeightOf inst - clientHeight"

text \<open>Lines 314-323: the candidate scroll offset of round \<open>i\<close> and its range.\<close>

definition candidateScrollTop :: "('a, 'k) VirtualList \<Rightarrow> rat \<Rightarrow> nat \<Rightarrow> rat" where
  "candidateScrollTop inst clientHeight i =
     getIndexByStartLoc 0 (maxScrollTopOf inst clientHeight)
       (nullToZero (scrollTop (state inst))) (int i)"

definition candidateRange :: "('a, 'k) VirtualList \<Rightarrow> rat \<Rightarrow> int \<Rightarrow> nat \<Rightarrow> rangeIndex" where
  "candidateRange inst clientHeight v i =
     getRangeIndex
       (getScrollPercentage (candidateScrollTop inst clientHeight i)
          (scrollHeightOf inst) clientHeight)
       (int (length (dataSource (props inst)))) v"

text \<open>Lines 327-348: the similarity of a candidate whose window holds the compared
  item.\<close>

definition candidateSimilarity ::
  "('a, 'k) VirtualList \<Rightarrow> rat \<Rightarrow> int \<Rightarrow> RelativeScroll \<Rightarrow> nat \<Rightarrow> rat" where
  "candidateSimilarity inst clientHeight v arg i =
     (case arg of RelativeScroll compareItemIndex compareItemRelativeTop \<Rightarrow>
        let r = candidateRange inst clientHeight v i;
            scrollPtg = getScrollPercentage (candidateScrollTop inst clientHeight i)
                          (scrollHeightOf inst) clientHeight;
            locatedItemRelativeTop =
              getItemRelativeTop (itemIndex r) (itemOffsetPtg r) (itemElementHeights inst)
                scrollPtg clientHeight (getIndexKey (Some (props inst)));
            compareItemTop =
              getCompareItemRelativeTop locatedItemRelativeTop (itemIndex r)
                compareItemIndex (startIndex r) (endIndex r)
                (getIndexKey (Some (props inst))) (itemElementHeights inst)
        in \<bar>compareItemTop - compareItemRelativeTop\<bar>)"

text \<open>Lines 314-361: one round of the loop body, up to the test of the miss counter.\<close>

definition scrollToStep ::
  "('a, 'k) VirtualList \<Rightarrow> rat \<Rightarrow> int \<Rightarrow> RelativeScroll \<Rightarrow> nat \<Rightarrow> searchState \<Rightarrow> searchState"
  where
  "scrollToStep inst clientHeight v arg i s =
     (case arg of RelativeScroll compareItemIndex compareItemRelativeTop \<Rightarrow>
        let candidate = candidateScrollTop inst clientHeight i;
            r = candidateRange inst clientHeight v i
        in if startIndex r \<le> compareItemIndex \<and> compareItemIndex \<le> endIndex r then
             (let similarity = candidateSimilarity inst clientHeight v arg i
              in if similarity < bestSimilarity s then
                   s\<lparr> bestSimilarity := similarity, best := Some (candidate, r),
                      missSimilarity := 0,
                      visited := visited s @ [(candidate, Improved)] \<rparr>
                 else
                   s\<lparr> missSimilarity := missSimilarity s + 1,
                      visited := visited s @ [(candidate, Missed)] \<rparr>)
           else s\<lparr> visited := visited s @ [(candidate, Skipped)] \<rparr>)"

text \<open>The loop counter \<open>i\<close> is a double that holds a whole number. \<open>i += 1\<close> is exact
  below \<open>2 ^ 53\<close>; there \<open>2 ^ 53 + 1\<close> rounds back to \<open>2 ^ 53\<close> and the counter stays.\<close>

definition increment :: "nat \<Rightarrow> nat" where
  "increment i = (if int i < 9007199254740992 then i + 1 else i)"

text \<open>Lines 313-369: \<open>for (let i = 0; i < maxScrollTop; i += 1)\<close> with its \<open>break\<close>.
  The loop need not end: \<open>None\<close> is a loop that runs forever.\<close>

partial_function (option) scrollToLoop ::
  "('a, 'k) VirtualList \<Rightarrow> rat \<Rightarrow> int \<Rightarrow> RelativeScroll \<Rightarrow> nat \<Rightarrow> searchState
     \<Rightarrow> (searchState \<times> searchExit) option" where
  "scrollToLoop inst clientHeight v arg i s =
     (if of_nat i < maxScrollTopOf inst clientHeight then
        (let s' = scrollToStep inst clientHeight v arg i s
         in if missSimilarity s' > 10 then Some (s', MissBreak)
            else scrollToLoop inst clientHeight v arg (increment i) s')
      else Some (s, IndexExhausted))"

declare scrollToLoop.simps [code]

text \<open>The whole search of an object argument. The visible count does not change
  between rounds; it is only computed when the loop body runs at all.\<close>

definition scrollToSearch ::
  "('a, 'k) VirtualList \<Rightarrow> rat \<Rightarrow> RelativeScroll \<Rightarrow> error + searchState \<times> searchExit" where
  "scrollToSearch inst clientHeight arg =
     (if 0 < maxScrollTopOf inst clientHeight then
        (case visibleCount (height (props inst)) (itemHeight (props inst)) of
           None \<Rightarrow> Inl NonFinite
         | Some v \<Rightarrow>
             (case scrollToLoop inst clientHeight v arg 0 searchStart of
                None \<Rightarrow> Inl Hang
              | Some r \<Rightarrow> Inr r))
      else Inr (searchStart, IndexExhausted))"

text \<open>Lines 372-390: re-scroll when there is a best match.\<close>

definition applyBest ::
  "('a, 'k) VirtualList \<Rightarrow> element \<Rightarrow> (rat \<times> rangeIndex) option \<Rightarrow> ('a, 'k) VirtualList" where
  "applyBest inst el b =
     (case b of
        None \<Rightarrow> inst
      | Some (bestScrollTop, r) \<Rightarrow>
          inst\<lparr> lockScroll := True,
                listRef := Some (el\<lparr> el_scrollTop := bestScrollTop \<rparr>),
                state := setRange bestScrollTop r (state inst),
                animationFrames := animationFrames inst @ [RequestFrame SetLockFalse] \<rparr>)"

definition scrollTo :: "scrollArg \<Rightarrow> ('a, 'k) VirtualList \<Rightarrow> error + ('a, 'k) VirtualList" where
  "scrollTo arg inst =
     (case listRef inst of
        None \<Rightarrow> Inl TypeError
      | Some el \<Rightarrow>
          (case arg of
             ArgNumber n \<Rightarrow> Inr (inst\<lparr> listRef := Some (el\<lparr> el_scrollTop := n \<rparr>) \<rparr>)
           | ArgObject target \<Rightarrow>
               (case scrollToSearch inst (el_clientHeight el) target of
                  Inl e \<Rightarrow> Inl e
                | Inr (s, ex) \<Rightarrow> Inr (applyBest inst el (best s)))))"

subsection \<open>Animation frames\<close>

text \<open>The host runs, at an animation-frame boundary, the callbacks requested before it;
  what they request in turn waits for the next boundary.\<close>

fun runCallback :: "frameCallback \<Rightarrow> ('a, 'k) VirtualList \<Rightarrow> ('a, 'k) VirtualList" where
  "runCallback SetLockFalse inst = inst\<lparr> lockScroll := False \<rparr>"
| "runCallback (RequestFrame cb) inst =
     inst\<lparr> animationFrames := animationFrames inst @ [cb] \<rparr>"

definition animationFrame :: "('a, 'k) VirtualList \<Rightarrow> ('a, 'k) VirtualList" where
  "animationFrame inst = fold runCallback (animationFrames inst) (inst\<lparr> animationFrames := [] \<rparr>)"

subsection \<open>\<open>componentDidUpdate\<close> (lines 124-222)\<close>

text \<open>Lines 133-160: record the heights and place the first rendered item.\<close>

definition measureStart :: "('a, 'k) VirtualList \<Rightarrow> element \<Rightarrow> ('a, 'k) VirtualList" where
  "measureStart inst el =
     (let inst1 = collectItemHeights inst;
          st = state inst1;
          getKey = getIndexKey (Some (props inst1));
          locatedItemTop =
            getItemAbsoluteTop (itemIndex st) (itemOffsetPtg st) (itemElementHeights inst1)
              (el_scrollTop el) (getElementScrollPercentage el) (el_clientHeight el) getKey;
          firstTop = fold (\<lambda>index t. t - heightOrZero (itemElementHeights inst1) (getKey index))
                  (rev [startIndex st .. itemIndex st - 1]) locatedItemTop
      in inst1\<lparr> state := st\<lparr> status := MEASURE_DONE, startItemTop := firstTop \<rparr> \<rparr>)"

text \<open>Lines 166-213: the relative scroll target handed to \<open>scrollTo\<close> after the length
  of the data source changed. \<open>inst\<close> is the instance after the heights were refreshed.\<close>

definition prevDataSourceOf :: "('a, 'k) VirtualList \<Rightarrow> 'a list" where
  "prevDataSourceOf inst = (case cachedProps inst of None \<Rightarrow> [] | Some p \<Rightarrow> dataSource p)"

definition originLocatedItemRelativeTop :: "('a, 'k) VirtualList \<Rightarrow> element \<Rightarrow> rat" where
  "originLocatedItemRelativeTop inst el =
     getItemRelativeTop (itemIndex (state inst)) (itemOffsetPtg (state inst))
       (itemElementHeights inst)
       (getScrollPercentage (nullToZero (scrollTop (state inst)))
          (of_nat (length (prevDataSourceOf inst)) * itemHeight (props inst))
          (el_clientHeight el))
       (el_clientHeight el) (getIndexKey (cachedProps inst))"

definition changedItemIndex :: "('a, 'k) VirtualList \<Rightarrow> int" where
  "changedItemIndex inst =
     findListDiffIndex (prevDataSourceOf inst) (dataSource (props inst))
       (\<lambda>item. getItemKey (props inst) (Some item))"

definition originCompareItemIndex :: "('a, 'k) VirtualList \<Rightarrow> int" where
  "originCompareItemIndex inst =
     (let i = changedItemIndex inst - 1 in if i < 0 then 0 else i)"

definition diffAnchor :: "('a, 'k) VirtualList \<Rightarrow> element \<Rightarrow> RelativeScroll" where
  "diffAnchor inst el =
     RelativeScroll (originCompareItemIndex inst)
       (getCompareItemRelativeTop (originLocatedItemRelativeTop inst el)
          (itemIndex (state inst)) (originCompareItemIndex inst)
          (startIndex (state inst)) (endIndex (state inst))
          (getIndexKey (cachedProps inst)) (itemElementHeights inst))"

text \<open>\<open>height\<close> used as a condition: defined and not zero.\<close>

definition truthy :: "rat option \<Rightarrow> bool" where
  "truthy h = (case h of None \<Rightarrow> False | Some v \<Rightarrow> v \<noteq> 0)"

definition lengthChanged :: "('a, 'k) VirtualList \<Rightarrow> bool" where
  "lengthChanged inst =
     (length (prevDataSourceOf inst) \<noteq> length (dataSource (props inst))
      \<and> truthy (height (props inst)))"

text \<open>The two phases read \<open>this.listRef.current\<close> and throw on \<open>null\<close>. \<open>setState\<close> is
  applied at once: the second phase reads no field of the state the first one sets.\<close>

definition didUpdateMeasure :: "('a, 'k) VirtualList \<Rightarrow> error + ('a, 'k) VirtualList" where
  "didUpdateMeasure inst =
     (if status (state inst) = MEASURE_START then
        (case listRef inst of None \<Rightarrow> Inl TypeError | Some el \<Rightarrow> Inr (measureStart inst el))
      else Inr inst)"

definition didUpdateReconcile :: "('a, 'k) VirtualList \<Rightarrow> error + ('a, 'k) VirtualList" where
  "didUpdateReconcile inst =
     (if lengthChanged inst then
        (case listRef inst of
           None \<Rightarrow> Inl TypeError
         | Some el \<Rightarrow>
             (let inst1 = collectItemHeights inst
              in scrollTo (ArgObject (diffAnchor inst1 el)) inst1))
      else Inr inst)"

definition componentDidUpdate :: "('a, 'k) VirtualList \<Rightarrow> error + ('a, 'k) VirtualList" where
  "componentDidUpdate inst =
     (if disabled (props inst) then Inr inst
      else
        (case didUpdateMeasure inst of
           Inl e \<Rightarrow> Inl e
         | Inr inst1 \<Rightarrow>
             (case didUpdateReconcile inst1 of
                Inl e \<Rightarrow> Inl e
              | Inr inst2 \<Rightarrow> Inr (inst2\<lparr> cachedProps := Some (props inst2) \<rparr>))))"

subsection \<open>\<open>render\<close> (lines 397-451)\<close>

text \<open>What \<open>render\<close> hands to the rendering surface: the items it materializes, each with
  its index and key, the height and offset props of the filler, and whether the scroll
  handler and the ref are attached to the container.\<close>

record ('a, 'k) rendered =
  children :: "(int \<times> 'k key \<times> 'a) list"
  fillerHeight :: "rat option"
  fillerOffset :: "rat option"
  onScrollBound :: bool
  refBound :: bool

definition ITEM_SCALE_RATE :: rat where
  "ITEM_SCALE_RATE = 1"

text \<open>\<open>Array.prototype.slice\<close> with integer bounds.\<close>

definition slice :: "'a list \<Rightarrow> int \<Rightarrow> int \<Rightarrow> 'a list" where
  "slice xs lower upper =
     (let n = int (length xs);
          b = (if lower < 0 then max 0 (n + lower) else min lower n);
          e = (if upper < 0 then max 0 (n + upper) else min upper n)
      in take (nat (e - b)) (drop (nat b) xs))"

definition renderChildren ::
  "('a, 'k) ListProps \<Rightarrow> 'a list \<Rightarrow> int \<Rightarrow> (int \<times> 'k key \<times> 'a) list" where
  "renderChildren p items start =
     map (\<lambda>(item, index).
            (start + int index, getIndexKey (Some p) (start + int index), item))
         (zip items [0 ..< length items])"

definition render :: "('a, 'k) VirtualList \<Rightarrow> ('a, 'k) rendered" where
  "render inst =
     (let p = props inst; st = state inst
      in if height p = None
            \<or> of_nat (length (dataSource p)) * itemHeight p \<le> nullToZero (height p)
         then
           \<lparr> children = renderChildren p (dataSource p) 0,
             fillerHeight = height p, fillerOffset = None,
             onScrollBound = False, refBound = False \<rparr>
         else
           \<lparr> children =
               renderChildren p (slice (dataSource p) (startIndex st) (endIndex st + 1))
                 (startIndex st),
             fillerHeight =
               Some (of_nat (length (dataSource p)) * itemHeight p * ITEM_SCALE_RATE),
             fillerOffset = Some (if status st = MEASURE_DONE then startItemTop st else 0),
             onScrollBound = True, refBound = True \<rparr>)"

subsection \<open>Events\<close>

text \<open>What can happen to a mounted component: the user scrolls the container to an
  offset, which fires \<open>onScroll\<close>; the owner passes new props and React calls
  \<open>componentDidUpdate\<close> after the render; React calls \<open>componentDidUpdate\<close> after a
  render caused by \<open>setState\<close>; the owner calls \<open>scrollTo\<close>; an animation frame passes;
  the rendering surface lays out the container and the mounted items anew.\<close>

datatype ('a, 'k) event =
    Mount
  | Scroll rat
  | NewProps "('a, 'k) ListProps"
  | Update
  | ScrollTo scrollArg
  | Frame
  | Layout "element option" "'k key \<rightharpoonup> rat"

fun step :: "('a, 'k) event \<Rightarrow> ('a, 'k) VirtualList \<Rightarrow> error + ('a, 'k) VirtualList" where
  "step Mount inst = componentDidMount inst"
| "step (Scroll x) inst =
     onScroll (inst\<lparr> listRef := map_option (\<lambda>el. el\<lparr> el_scrollTop := x \<rparr>) (listRef inst) \<rparr>)"
| "step (NewProps p) inst = componentDidUpdate (inst\<lparr> props := p \<rparr>)"
| "step Update inst = componentDidUpdate inst"
| "step (ScrollTo arg) inst = scrollTo arg inst"
| "step Frame inst = Inr (animationFrame inst)"
| "step (Layout el els) inst = Inr (inst\<lparr> listRef := el, itemElements := els \<rparr>)"

fun run :: "('a, 'k) event list \<Rightarrow> ('a, 'k) VirtualList \<Rightarrow> error + ('a, 'k) VirtualList" where
  "run [] inst = Inr inst"
| "run (e # es) inst = (case step e inst of Inl err \<Rightarrow> Inl err | Inr inst' \<Rightarrow> run es inst')"

text \<open>Props as the owner can sensibly pass them: a positive assumed item height and a
  viewport height that is not negative.\<close>

definition saneProps :: "('a, 'k) ListProps \<Rightarrow> bool" where
  "saneProps p = (0 < itemHeight p \<and> (case height p of None \<Rightarrow> True | Some h \<Rightarrow> 0 \<le> h))"

fun saneEvent :: "('a, 'k) event \<Rightarrow> bool" where
  "saneEvent (NewProps p) = saneProps p"
| "saneEvent _ = True"

subsection \<open>Predicates of the properties\<close>

text \<open>The located item lies in the window or is the sentinel just behind it.\<close>

definition windowInv :: "'z rangeIndex_scheme \<Rightarrow> bool" where
  "windowInv r = (startIndex r \<le> itemIndex r \<and> itemIndex r \<le> endIndex r + 1)"

definition stateInv :: "ListState \<Rightarrow> bool" where
  "stateInv s = (status s \<noteq> NONE \<longrightarrow> windowInv s)"

text \<open>The window of a candidate holds the compared item (the test of line 326).\<close>

definition inWindow :: "'z rangeIndex_scheme \<Rightarrow> RelativeScroll \<Rightarrow> bool" where
  "inWindow r arg =
     (case arg of RelativeScroll compareItemIndex compareItemRelativeTop \<Rightarrow>
        startIndex r \<le> compareItemIndex \<and> compareItemIndex \<le> endIndex r)"

text \<open>The number of misses since the last improvement in a list of outcomes.\<close>

definition missRun :: "outcome list \<Rightarrow> nat" where
  "missRun os = length (filter (\<lambda>oc. oc = Missed) (takeWhile (\<lambda>oc. oc \<noteq> Improved) (rev os)))"

text \<open>The value of the loop counter in round \<open>j\<close>, counted from 0: it stays at
  \<open>2 ^ 53\<close>.\<close>

definition counterAt :: "nat \<Rightarrow> nat" where
  "counterAt j = min j 9007199254740992"

text \<open>What the loop keeps true of its variables: round \<open>j\<close> examined the candidate of the
  counter value of that round, which passed the loop test; it was skipped exactly when its
  window does not hold the compared item; the miss counter counts the misses since the
  last improvement; and a best match is one of the examined candidates whose window holds
  the compared item.\<close>

definition searchTrace ::
  "('a, 'k) VirtualList \<Rightarrow> rat \<Rightarrow> int \<Rightarrow> RelativeScroll \<Rightarrow> searchState \<Rightarrow> bool" where
  "searchTrace inst clientHeight v arg s =
     (missSimilarity s = missRun (map snd (visited s))
      \<and> (\<forall>j<length (visited s).
             of_nat (counterAt j) < maxScrollTopOf inst clientHeight
             \<and> fst (visited s ! j) = candidateScrollTop inst clientHeight (counterAt j)
             \<and> (snd (visited s ! j) = Skipped
                  \<longleftrightarrow> \<not> inWindow (candidateRange inst clientHeight v (counterAt j)) arg))
      \<and> (\<forall>b. best s = Some b \<longrightarrow>
             (\<exists>j<length (visited s).
                 b = (candidateScrollTop inst clientHeight (counterAt j),
                      candidateRange inst clientHeight v (counterAt j))
                 \<and> inWindow (snd b) arg)))"

text \<open>The scenario of spec 8: 1000 items of assumed height 15 in a viewport of height
  300, scrolled to the middle.\<close>

definition scenario :: "(nat, nat) VirtualList" where
  "scenario =
     newList \<lparr> dataSource = [0 ..< 1000], height = Some 300, itemHeight = 15,
               itemKey = (\<lambda>x. x), disabled = False \<rparr>
       (Some \<lparr> el_scrollTop = 7350, el_scrollHeight = 15000, el_clientHeight = 300 \<rparr>)"

text \<open>A list of three items of assumed height 10 in a viewport of height 10, not yet
  scrolled, and its container.\<close>

definition smallProps :: "(nat, nat) ListProps" where
  "smallProps = \<lparr> dataSource = [1, 2, 3], height = Some 10, itemHeight = 10,
                  itemKey = (\<lambda>x. x), disabled = False \<rparr>"

definition smallElement :: element where
  "smallElement = \<lparr> el_scrollTop = 0, el_scrollHeight = 30, el_clientHeight = 10 \<rparr>"

definition small :: "(nat, nat) VirtualList" where
  "small = newList smallProps (Some smallElement)"

text \<open>Props with an empty data source, and disabled props with one item.\<close>

definition emptyProps :: "(nat, nat) ListProps" where
  "emptyProps = \<lparr> dataSource = [], height = Some 10, itemHeight = 10,
                  itemKey = (\<lambda>x. x), disabled = False \<rparr>"

definition disabledProps :: "(nat, nat) ListProps" where
  "disabledProps = \<lparr> dataSource = [7], height = Some 10, itemHeight = 10,
                     itemKey = (\<lambda>x. x), disabled = True \<rparr>"

text \<open>A list without a viewport height; its container gets no ref.\<close>

definition unconstrained :: "(nat, nat) VirtualList" where
  "unconstrained =
     newList \<lparr> dataSource = [5, 6, 7], height = None, itemHeight = 15,
               itemKey = (\<lambda>x. x), disabled = False \<rparr> None"





text \<open>Two items of assumed height 1 in a container of height 1: a single candidate
  scroll offset, whose window holds item 0.\<close>

definition brief :: "(nat, nat) VirtualList" where
  "brief =
     newList \<lparr> dataSource = [1, 2], height = Some 1, itemHeight = 1,
               itemKey = (\<lambda>x. x), disabled = False \<rparr>
       (Some \<lparr> el_scrollTop = 0, el_scrollHeight = 2, el_clientHeight = 1 \<rparr>)"


section \<open>Properties\<close>

subsection \<open>Percentage Mapper and Range Locator\<close>

lemma Number_MAX_VALUE_eq: "Number_MAX_VALUE = (2 ^ 53 - 1) * 2 ^ 971"
  by (simp add: Number_MAX_VALUE_def)

lemma clamp01_bounds: "0 \<le> clamp01 x \<and> clamp01 x \<le> 1"
  by (simp add: clamp01_def)

lemma getScrollPercentage_bounds:
  "0 \<le> getScrollPercentage s H h \<and> getScrollPercentage s H h \<le> 1"
  by (simp add: getScrollPercentage_def clamp01_bounds)

text \<open>The located index \<open>L\<close>, the two buffers \<open>b\<close> and \<open>a\<close> cut at the edges, and the
  window made of them.\<close>

lemma getRangeIndex_parts:
  obtains L b a where
    "itemIndex (getRangeIndex f n v) = L"
    "startIndex (getRangeIndex f n v) = max 0 (min b (a - v + 1))"
    "endIndex (getRangeIndex f n v) = min (n - 1) (max a (b + v - 1))"
    "L = max 0 (min n \<lfloor>f * of_int n\<rfloor>)"
    "b = max 0 (L - (v + 1) div 2)"
    "a = min (n - 1) (L + (v + 1) div 2)"
proof -
  let ?L = "max 0 (min n \<lfloor>f * of_int n\<rfloor>)"
  show thesis
  proof (rule that [of ?L "max 0 (?L - (v + 1) div 2)" "min (n - 1) (?L + (v + 1) div 2)"])
    show "itemIndex (getRangeIndex f n v) = ?L"
      by (simp add: getRangeIndex_def Let_def)
    show "startIndex (getRangeIndex f n v)
        = max 0 (min (max 0 (?L - (v + 1) div 2))
                     (min (n - 1) (?L + (v + 1) div 2) - v + 1))"
      by (simp add: getRangeIndex_def Let_def)
    show "endIndex (getRangeIndex f n v)
        = min (n - 1) (max (min (n - 1) (?L + (v + 1) div 2))
                           (max 0 (?L - (v + 1) div 2) + v - 1))"
      by (simp add: getRangeIndex_def Let_def)
  qed (rule refl)+
qed

lemma getRangeIndex_clamped:
  "0 \<le> startIndex (getRangeIndex f n v)"
  "endIndex (getRangeIndex f n v) \<le> n - 1"
proof -
  obtain L :: int and b a where
    s: "startIndex (getRangeIndex f n v) = max 0 (min b (a - v + 1))"
    and e: "endIndex (getRangeIndex f n v) = min (n - 1) (max a (b + v - 1))"
    by (rule getRangeIndex_parts)
  show "0 \<le> startIndex (getRangeIndex f n v)" unfolding s by simp
  show "endIndex (getRangeIndex f n v) \<le> n - 1" unfolding e by simp
qed

lemma getRangeIndex_window:
  assumes "0 \<le> n" and "- 1 \<le> v"
  shows "0 \<le> startIndex (getRangeIndex f n v)"
    and "startIndex (getRangeIndex f n v) \<le> itemIndex (getRangeIndex f n v)"
    and "itemIndex (getRangeIndex f n v) \<le> endIndex (getRangeIndex f n v) + 1"
    and "itemIndex (getRangeIndex f n v) \<le> n"
    and "endIndex (getRangeIndex f n v) \<le> n - 1"
proof -
  obtain L b a where
    i: "itemIndex (getRangeIndex f n v) = L"
    and s: "startIndex (getRangeIndex f n v) = max 0 (min b (a - v + 1))"
    and e: "endIndex (getRangeIndex f n v) = min (n - 1) (max a (b + v - 1))"
    and L: "L = max 0 (min n \<lfloor>f * of_int n\<rfloor>)"
    and b: "b = max 0 (L - (v + 1) div 2)"
    and a: "a = min (n - 1) (L + (v + 1) div 2)"
    by (rule getRangeIndex_parts)
  have half: "0 \<le> (v + 1) div 2"
    using assms(2) by simp
  have L0: "0 \<le> L"
    unfolding L by simp
  have Ln: "L \<le> n"
    using assms(1) unfolding L by simp
  have bL: "b \<le> L"
    using half L0 unfolding b by linarith
  have aL: "L - 1 \<le> a"
    using half Ln unfolding a by linarith
  show "0 \<le> startIndex (getRangeIndex f n v)"
    by (rule getRangeIndex_clamped)
  show "startIndex (getRangeIndex f n v) \<le> itemIndex (getRangeIndex f n v)"
    using bL L0 unfolding s i by linarith
  show "itemIndex (getRangeIndex f n v) \<le> endIndex (getRangeIndex f n v) + 1"
    using aL Ln unfolding e i by linarith
  show "itemIndex (getRangeIndex f n v) \<le> n"
    using Ln unfolding i .
  show "endIndex (getRangeIndex f n v) \<le> n - 1"
    by (rule getRangeIndex_clamped)
qed

lemma getRangeIndex_located:
  assumes "0 \<le> f" and "f < 1" and "1 \<le> n" and "- 1 \<le> v"
  shows "itemIndex (getRangeIndex f n v) \<le> endIndex (getRangeIndex f n v)"
proof -
  obtain L b a where
    i: "itemIndex (getRangeIndex f n v) = L"
    and e: "endIndex (getRangeIndex f n v) = min (n - 1) (max a (b + v - 1))"
    and L: "L = max 0 (min n \<lfloor>f * of_int n\<rfloor>)"
    and a: "a = min (n - 1) (L + (v + 1) div 2)"
    by (rule getRangeIndex_parts)
  have "f * of_int n < of_int n"
    using assms(2,3) by simp
  then have fl: "\<lfloor>f * of_int n\<rfloor> < n"
    by (simp add: floor_less_iff)
  have half: "0 \<le> (v + 1) div 2"
    using assms(4) by simp
  have Ln: "L \<le> n - 1"
    using fl assms(3) unfolding L by linarith
  have aL: "L \<le> a"
    using half Ln unfolding a by linarith
  show ?thesis
    using aL Ln unfolding e i by linarith
qed

lemma getRangeIndex_bottom:
  assumes "1 \<le> n" and "1 \<le> v"
  shows "itemIndex (getRangeIndex 1 n v) = n" and "endIndex (getRangeIndex 1 n v) = n - 1"
proof -
  obtain L b a where
    i: "itemIndex (getRangeIndex 1 n v) = L"
    and e: "endIndex (getRangeIndex 1 n v) = min (n - 1) (max a (b + v - 1))"
    and L: "L = max 0 (min n \<lfloor>1 * (of_int n :: rat)\<rfloor>)"
    and a: "a = min (n - 1) (L + (v + 1) div 2)"
    by (rule getRangeIndex_parts)
  have half: "1 \<le> (v + 1) div 2"
    using assms(2) by linarith
  have Ln: "L = n"
    using assms(1) unfolding L by simp
  have an: "a = n - 1"
    using half unfolding a Ln by linarith
  show "itemIndex (getRangeIndex 1 n v) = n"
    unfolding i Ln ..
  show "endIndex (getRangeIndex 1 n v) = n - 1"
    unfolding e an by simp
qed

lemma getRangeIndex_ordered:
  assumes "1 \<le> n" and "1 \<le> v"
  shows "startIndex (getRangeIndex f n v) \<le> endIndex (getRangeIndex f n v)"
proof -
  obtain L b a where
    s: "startIndex (getRangeIndex f n v) = max 0 (min b (a - v + 1))"
    and e: "endIndex (getRangeIndex f n v) = min (n - 1) (max a (b + v - 1))"
    and L: "L = max 0 (min n \<lfloor>f * of_int n\<rfloor>)"
    and b: "b = max 0 (L - (v + 1) div 2)"
    and a: "a = min (n - 1) (L + (v + 1) div 2)"
    by (rule getRangeIndex_parts)
  have half: "1 \<le> (v + 1) div 2"
    using assms(2) by linarith
  have L0: "0 \<le> L"
    unfolding L by simp
  have Ln: "L \<le> n"
    using assms(1) unfolding L by simp
  have b0: "0 \<le> b"
    unfolding b by simp
  have bL: "b \<le> L"
    using half L0 unfolding b by linarith
  have bn: "b \<le> n - 1"
    using half Ln assms(1) unfolding b by linarith
  have an: "a \<le> n - 1"
    unfolding a by simp
  have ba: "b \<le> a"
    using half L0 bL bn unfolding a by linarith
  have "max 0 (min b (a - v + 1)) \<le> b"
    using b0 by linarith
  moreover have "a \<le> min (n - 1) (max a (b + v - 1))"
    using an by linarith
  ultimately show ?thesis
    using ba unfolding s e by linarith
qed

text \<open>The window holds at least \<open>min(v, n)\<close> items.\<close>

lemma getRangeIndex_size:
  assumes "1 \<le> n" and "1 \<le> v"
  shows "min v n \<le> endIndex (getRangeIndex f n v) - startIndex (getRangeIndex f n v) + 1"
proof -
  obtain L b a where
    s: "startIndex (getRangeIndex f n v) = max 0 (min b (a - v + 1))"
    and e: "endIndex (getRangeIndex f n v) = min (n - 1) (max a (b + v - 1))"
    and L: "L = max 0 (min n \<lfloor>f * of_int n\<rfloor>)"
    and b: "b = max 0 (L - (v + 1) div 2)"
    and a: "a = min (n - 1) (L + (v + 1) div 2)"
    by (rule getRangeIndex_parts)
  have b0: "0 \<le> b"
    unfolding b by simp
  have an: "a \<le> n - 1"
    unfolding a by simp
  show ?thesis
  proof (cases "v \<le> a - b + 1")
    case True
    then have "max 0 (min b (a - v + 1)) = b" and "min (n - 1) (max a (b + v - 1)) = a"
      using b0 an by linarith+
    then show ?thesis using True unfolding s e by linarith
  next
    case False
    then have s': "max 0 (min b (a - v + 1)) = max 0 (a - v + 1)"
      and e': "min (n - 1) (max a (b + v - 1)) = min (n - 1) (b + v - 1)"
      by linarith+
    show ?thesis
      using False b0 an assms unfolding s e s' e' by linarith
  qed
qed

lemma visibleCount_sane:
  assumes "saneProps p" and "visibleCount (height p) (itemHeight p) = Some v"
  shows "0 \<le> v"
proof -
  obtain h where h: "height p = Some h" and v: "v = \<lceil>h / itemHeight p\<rceil>"
    using assms(2) by (auto simp: visibleCount_def split: option.splits if_splits)
  have "0 \<le> h / itemHeight p"
    using assms(1) h by (simp add: saneProps_def)
  then show ?thesis
    unfolding v by (simp add: ceiling_le_iff le_ceiling_iff)
qed

lemma setRange_inv: "windowInv r \<Longrightarrow> stateInv (setRange x r s)"
  by (simp add: stateInv_def windowInv_def setRange_def)

lemma windowInv_getRangeIndex: "- 1 \<le> v \<Longrightarrow> windowInv (getRangeIndex f (int n) v)"
  using getRangeIndex_window [of "int n" v f] by (simp add: windowInv_def)

lemma onScroll_inv:
  assumes "saneProps (props inst)" and "stateInv (state inst)" and "onScroll inst = Inr inst'"
  shows "stateInv (state inst') \<and> props inst' = props inst"
proof (cases "listRef inst")
  case None
  then show ?thesis using assms(3) by (simp add: onScroll_def)
next
  case (Some el)
  show ?thesis
  proof (cases "Some (el_scrollTop el) = scrollTop (state inst) \<or> lockScroll inst
               \<or> disabled (props inst)")
    case True
    then have "inst' = inst" using assms(3) Some by (auto simp: onScroll_def)
    then show ?thesis using assms(2) by simp
  next
    case False
    then obtain v where v: "visibleCount (height (props inst)) (itemHeight (props inst)) = Some v"
      and r: "inst' = inst\<lparr> state :=
                   setRange (el_scrollTop el)
                     (getRangeIndex (getElementScrollPercentage el)
                        (int (length (dataSource (props inst)))) v)
                     (state inst) \<rparr>"
      using assms(3) Some by (auto simp: onScroll_def split: option.splits)
    have "0 \<le> v" using visibleCount_sane [OF assms(1) v] .
    then have "windowInv (getRangeIndex (getElementScrollPercentage el)
                        (int (length (dataSource (props inst)))) v)"
      by (intro windowInv_getRangeIndex) simp
    then show ?thesis unfolding r by (simp add: setRange_inv)
  qed
qed

subsection \<open>The search loop of \<open>scrollTo\<close>\<close>

lemma missRun_simps:
  "missRun [] = 0"
  "missRun (os @ [Improved]) = 0"
  "missRun (os @ [Missed]) = missRun os + 1"
  "missRun (os @ [Skipped]) = missRun os"
  by (simp_all add: missRun_def)

lemma scrollToStep_outcome:
  "\<exists>oc. visited (scrollToStep inst ch v arg i s)
            = visited s @ [(candidateScrollTop inst ch i, oc)]
        \<and> (oc = Skipped \<longleftrightarrow> \<not> inWindow (candidateRange inst ch v i) arg)
        \<and> (oc = Improved \<longrightarrow>
              missSimilarity (scrollToStep inst ch v arg i s) = 0
              \<and> best (scrollToStep inst ch v arg i s)
                  = Some (candidateScrollTop inst ch i, candidateRange inst ch v i))
        \<and> (oc = Missed \<longrightarrow>
              missSimilarity (scrollToStep inst ch v arg i s) = missSimilarity s + 1
              \<and> best (scrollToStep inst ch v arg i s) = best s)
        \<and> (oc = Skipped \<longrightarrow>
              missSimilarity (scrollToStep inst ch v arg i s) = missSimilarity s
              \<and> best (scrollToStep inst ch v arg i s) = best s)"
  by (cases arg) (simp add: scrollToStep_def Let_def inWindow_def)

lemma scrollToStep_length:
  "length (visited (scrollToStep inst ch v arg i s)) = length (visited s) + 1"
  using scrollToStep_outcome [of inst ch v arg i s] by auto

lemma scrollToStep_miss:
  "missSimilarity (scrollToStep inst ch v arg i s) \<le> missSimilarity s + 1"
proof -
  obtain oc where
    "oc = Improved \<longrightarrow> missSimilarity (scrollToStep inst ch v arg i s) = 0"
    "oc = Missed \<longrightarrow> missSimilarity (scrollToStep inst ch v arg i s) = missSimilarity s + 1"
    "oc = Skipped \<longrightarrow> missSimilarity (scrollToStep inst ch v arg i s) = missSimilarity s"
    using scrollToStep_outcome [of inst ch v arg i s] by blast
  then show ?thesis by (cases oc) simp_all
qed



lemma increment_nat: "increment i = (if i < 9007199254740992 then i + 1 else i)"
proof -
  have "int i < 9007199254740992 \<longleftrightarrow> i < 9007199254740992"
    by presburger
  then show ?thesis
    by (simp add: increment_def)
qed

lemma counterAt_increment: "increment (counterAt j) = counterAt (j + 1)"
  by (simp add: increment_nat counterAt_def min_def)



lemma searchTrace_start: "searchTrace inst ch v arg searchStart"
  by (simp add: searchTrace_def searchStart_def missRun_simps)

lemma searchTrace_step:
  assumes lt: "of_nat (counterAt (length (visited s))) < maxScrollTopOf inst ch"
    and inv: "searchTrace inst ch v arg s"
  shows "searchTrace inst ch v arg
           (scrollToStep inst ch v arg (counterAt (length (visited s))) s)"
proof -
  let ?n = "length (visited s)"
  let ?i = "counterAt ?n"
  let ?s = "scrollToStep inst ch v arg ?i s"
  obtain oc where vis: "visited ?s = visited s @ [(candidateScrollTop inst ch ?i, oc)]"
    and sk: "oc = Skipped \<longleftrightarrow> \<not> inWindow (candidateRange inst ch v ?i) arg"
    and imp: "oc = Improved \<longrightarrow> missSimilarity ?s = 0
                \<and> best ?s = Some (candidateScrollTop inst ch ?i, candidateRange inst ch v ?i)"
    and mis: "oc = Missed \<longrightarrow> missSimilarity ?s = missSimilarity s + 1 \<and> best ?s = best s"
    and skp: "oc = Skipped \<longrightarrow> missSimilarity ?s = missSimilarity s \<and> best ?s = best s"
    using scrollToStep_outcome [of inst ch v arg ?i s] by blast
  have run: "missSimilarity s = missRun (map snd (visited s))"
    and old: "\<forall>j<?n. of_nat (counterAt j) < maxScrollTopOf inst ch
                \<and> fst (visited s ! j) = candidateScrollTop inst ch (counterAt j)
                \<and> (snd (visited s ! j) = Skipped
                     \<longleftrightarrow> \<not> inWindow (candidateRange inst ch v (counterAt j)) arg)"
    and bst: "\<forall>b. best s = Some b \<longrightarrow>
             (\<exists>j<?n. b = (candidateScrollTop inst ch (counterAt j),
                           candidateRange inst ch v (counterAt j))
                    \<and> inWindow (snd b) arg)"
    using inv by (simp_all add: searchTrace_def)
  have len: "length (visited ?s) = ?n + 1"
    using vis by simp
  have c3: "missSimilarity ?s = missRun (map snd (visited ?s))"
    using vis run imp mis skp by (cases oc) (simp_all add: missRun_simps)
  have c5: "\<forall>j<length (visited ?s). of_nat (counterAt j) < maxScrollTopOf inst ch
                \<and> fst (visited ?s ! j) = candidateScrollTop inst ch (counterAt j)
                \<and> (snd (visited ?s ! j) = Skipped
                     \<longleftrightarrow> \<not> inWindow (candidateRange inst ch v (counterAt j)) arg)"
  proof (intro allI impI)
    fix j assume "j < length (visited ?s)"
    then consider "j < ?n" | "j = ?n" using len by linarith
    then show "of_nat (counterAt j) < maxScrollTopOf inst ch
                \<and> fst (visited ?s ! j) = candidateScrollTop inst ch (counterAt j)
                \<and> (snd (visited ?s ! j) = Skipped
                     \<longleftrightarrow> \<not> inWindow (candidateRange inst ch v (counterAt j)) arg)"
    proof cases
      case 1
      then show ?thesis using old vis by (simp add: nth_append)
    next
      case 2
      then show ?thesis using vis sk lt by (simp add: nth_append)
    qed
  qed
  have c6: "\<forall>b. best ?s = Some b \<longrightarrow>
             (\<exists>j<length (visited ?s).
                 b = (candidateScrollTop inst ch (counterAt j),
                      candidateRange inst ch v (counterAt j))
                 \<and> inWindow (snd b) arg)"
  proof (cases oc)
    case Skipped
    then show ?thesis using skp bst len by (metis less_SucI Suc_eq_plus1)
  next
    case Improved
    then have "inWindow (candidateRange inst ch v ?i) arg" using sk by simp
    then show ?thesis using imp Improved len by auto
  next
    case Missed
    then show ?thesis using mis bst len by (metis less_SucI Suc_eq_plus1)
  qed
  show ?thesis
    unfolding searchTrace_def using c3 c5 c6 by blast
qed

text \<open>What holds when the loop returns.\<close>

lemma scrollToLoop_exit:
  assumes "scrollToLoop inst ch v arg i s = Some (s', ex)"
    and "searchTrace inst ch v arg s"
    and "i = counterAt (length (visited s))"
    and "missSimilarity s \<le> 10"
  shows "searchTrace inst ch v arg s'
       \<and> (ex = IndexExhausted \<longrightarrow>
            \<not> of_nat (counterAt (length (visited s'))) < maxScrollTopOf inst ch
            \<and> missSimilarity s' \<le> 10)
       \<and> (ex = MissBreak \<longrightarrow> missSimilarity s' = 11)"
proof -
  have "searchTrace inst ch v arg s \<and> i = counterAt (length (visited s))
          \<and> missSimilarity s \<le> 10 \<longrightarrow>
        searchTrace inst ch v arg (fst y)
        \<and> (snd y = IndexExhausted \<longrightarrow>
             \<not> of_nat (counterAt (length (visited (fst y)))) < maxScrollTopOf inst ch
             \<and> missSimilarity (fst y) \<le> 10)
        \<and> (snd y = MissBreak \<longrightarrow> missSimilarity (fst y) = 11)"
    if "scrollToLoop inst ch v arg i s = Some y" for y
  proof (induction inst ch v arg i s y rule: scrollToLoop.raw_induct)
    case (1 loop inst ch v arg i s y)
    show ?case
    proof
      assume pre: "searchTrace inst ch v arg s \<and> i = counterAt (length (visited s))
          \<and> missSimilarity s \<le> 10"
      then have tr: "searchTrace inst ch v arg s"
        and i: "i = counterAt (length (visited s))"
        and ms: "missSimilarity s \<le> 10"
        by simp_all
      let ?s = "scrollToStep inst ch v arg i s"
      show "searchTrace inst ch v arg (fst y)
        \<and> (snd y = IndexExhausted \<longrightarrow>
             \<not> of_nat (counterAt (length (visited (fst y)))) < maxScrollTopOf inst ch
             \<and> missSimilarity (fst y) \<le> 10)
        \<and> (snd y = MissBreak \<longrightarrow> missSimilarity (fst y) = 11)"
      proof (cases "of_nat i < maxScrollTopOf inst ch")
        case False
        then have "y = (s, IndexExhausted)"
          using "1.hyps" by simp
        then show ?thesis using False tr ms i by simp
      next
        case True
        have tr': "searchTrace inst ch v arg ?s"
          using searchTrace_step [of s inst ch v arg] True tr i by simp
        show ?thesis
        proof (cases "10 < missSimilarity ?s")
          case brk: True
          then have eq: "y = (?s, MissBreak)"
            using "1.hyps" True by (simp add: Let_def)
          have "missSimilarity ?s = 11"
            using brk scrollToStep_miss [of inst ch v arg i s] ms by linarith
          then show ?thesis using eq tr' by simp
        next
          case cont: False
          then have rec: "loop inst ch v arg (increment i) ?s = Some y"
            using "1.hyps" True by (simp add: Let_def)
          have i': "increment i = counterAt (length (visited ?s))"
            using scrollToStep_length [of inst ch v arg i s] i by (simp add: counterAt_increment)
          have ms': "missSimilarity ?s \<le> 10"
            using cont by simp
          have pre': "searchTrace inst ch v arg ?s
              \<and> increment i = counterAt (length (visited ?s)) \<and> missSimilarity ?s \<le> 10"
            using tr' i' ms' by (intro conjI)
          show ?thesis
            using "1.IH" [OF rec] pre' by (rule mp)
        qed
      qed
    qed
  qed (rule that)
  from this [OF assms(1)] show ?thesis
    using assms(2-4) by simp
qed



lemma scrollToSearch_result:
  assumes "scrollToSearch inst ch arg = Inr (s, ex)"
    and "visibleCount (height (props inst)) (itemHeight (props inst)) = Some v"
  shows "searchTrace inst ch v arg s
       \<and> (ex = IndexExhausted \<longrightarrow>
            \<not> of_nat (counterAt (length (visited s))) < maxScrollTopOf inst ch
            \<and> missSimilarity s \<le> 10)
       \<and> (ex = MissBreak \<longrightarrow> missSimilarity s = 11)"
proof (cases "0 < maxScrollTopOf inst ch")
  case True
  then have "scrollToLoop inst ch v arg 0 searchStart = Some (s, ex)"
    using assms by (simp add: scrollToSearch_def split: option.splits)
  then show ?thesis
    using scrollToLoop_exit [of inst ch v arg 0 searchStart s ex] searchTrace_start [of inst ch v arg]
    by (simp add: searchStart_def counterAt_def)
next
  case False
  then have eq: "s = searchStart" "ex = IndexExhausted"
    using assms by (simp_all add: scrollToSearch_def)
  show ?thesis
    using eq False searchTrace_start [of inst ch v arg] by (simp add: searchStart_def counterAt_def)
qed


subsection \<open>Rendering\<close>

lemma renderChildren_items: "map (\<lambda>c. snd (snd c)) (renderChildren p xs start) = xs"
proof -
  have "map (\<lambda>c. snd (snd c)) (renderChildren p xs start) = map fst (zip xs [0 ..< length xs])"
    by (simp add: renderChildren_def case_prod_unfold comp_def)
  then show ?thesis by simp
qed

lemma renderChildren_indices:
  "map fst (renderChildren p xs start) = map (\<lambda>i. start + int i) [0 ..< length xs]"
proof -
  have "map fst (renderChildren p xs start)
      = map ((\<lambda>i. start + int i) \<circ> snd) (zip xs [0 ..< length xs])"
    by (simp add: renderChildren_def case_prod_unfold comp_def)
  also have "\<dots> = map (\<lambda>i. start + int i) (map snd (zip xs [0 ..< length xs]))"
    by (simp only: map_map)
  also have "\<dots> = map (\<lambda>i. start + int i) [0 ..< length xs]"
    by simp
  finally show ?thesis .
qed

text \<open>Without a viewport height \<open>render\<close> materializes the whole collection and
  reads neither the state, the ledger nor the container.\<close>

lemma render_unconstrained:
  assumes "height (props inst) = None"
  shows "children (render inst) = renderChildren (props inst) (dataSource (props inst)) 0
       \<and> map (\<lambda>c. snd (snd c)) (children (render inst)) = dataSource (props inst)
       \<and> map fst (children (render inst)) = map int [0 ..< length (dataSource (props inst))]
       \<and> fillerHeight (render inst) = None
       \<and> fillerOffset (render inst) = None
       \<and> \<not> onScrollBound (render inst)
       \<and> \<not> refBound (render inst)
       \<and> render (inst\<lparr> state := s, itemElementHeights := hs, listRef := el \<rparr>) = render inst
       \<and> \<not> lengthChanged inst"
proof -
  have c: "children (render inst) = renderChildren (props inst) (dataSource (props inst)) 0"
    using assms by (simp add: render_def Let_def)
  have "map fst (children (render inst)) = map int [0 ..< length (dataSource (props inst))]"
    unfolding c renderChildren_indices by simp
  moreover have "render (inst\<lparr> state := s, itemElementHeights := hs, listRef := el \<rparr>) = render inst"
    using assms by (simp add: render_def Let_def)
  moreover have "\<not> lengthChanged inst"
    using assms by (simp add: lengthChanged_def truthy_def)
  ultimately show ?thesis
    using assms c by (simp add: renderChildren_items) (simp add: render_def Let_def)
qed

subsection \<open>The located item stays in the window across events\<close>

lemma collectItemHeights_frame:
  "state (collectItemHeights inst) = state inst"
  "props (collectItemHeights inst) = props inst"
  "listRef (collectItemHeights inst) = listRef inst"
  "cachedProps (collectItemHeights inst) = cachedProps inst"
  "lockScroll (collectItemHeights inst) = lockScroll inst"
  "animationFrames (collectItemHeights inst) = animationFrames inst"
  by (simp_all add: collectItemHeights_def)

lemma applyBest_inv:
  assumes "stateInv (state inst)" and "\<forall>c r. b = Some (c, r) \<longrightarrow> windowInv r"
  shows "stateInv (state (applyBest inst el b)) \<and> props (applyBest inst el b) = props inst"
proof (cases b)
  case None
  then show ?thesis using assms(1) by (simp add: applyBest_def)
next
  case (Some cr)
  obtain c r where cr: "cr = (c, r)" by (cases cr)
  then have "windowInv r" using assms(2) Some by simp
  then show ?thesis using Some cr by (simp add: applyBest_def setRange_inv)
qed

lemma scrollToSearch_best_window:
  assumes sane: "saneProps (props inst)"
    and res: "scrollToSearch inst ch arg = Inr (s, ex)"
    and b: "best s = Some (c, r)"
  shows "windowInv r"
proof -
  have pos: "0 < maxScrollTopOf inst ch"
  proof (rule ccontr)
    assume "\<not> 0 < maxScrollTopOf inst ch"
    then have "s = searchStart" using res by (simp add: scrollToSearch_def)
    then show False using b by (simp add: searchStart_def)
  qed
  then obtain v where v: "visibleCount (height (props inst)) (itemHeight (props inst)) = Some v"
    using res by (auto simp: scrollToSearch_def split: option.splits)
  have "searchTrace inst ch v arg s"
    using scrollToSearch_result [OF res v] by simp
  then obtain j where
    "(c, r) = (candidateScrollTop inst ch (counterAt j), candidateRange inst ch v (counterAt j))"
    using b by (auto simp: searchTrace_def)
  then have r: "r = getRangeIndex
       (getScrollPercentage (candidateScrollTop inst ch (counterAt j)) (scrollHeightOf inst) ch)
       (int (length (dataSource (props inst)))) v"
    by (simp add: candidateRange_def)
  have "0 \<le> v" using visibleCount_sane [OF sane v] .
  then show ?thesis unfolding r by (intro windowInv_getRangeIndex) simp
qed

lemma scrollTo_inv:
  assumes sane: "saneProps (props inst)" and inv: "stateInv (state inst)"
    and res: "scrollTo arg inst = Inr inst'"
  shows "stateInv (state inst') \<and> props inst' = props inst"
proof -
  obtain el where el: "listRef inst = Some el"
    using res by (cases "listRef inst") (simp_all add: scrollTo_def)
  show ?thesis
  proof (cases arg)
    case (ArgNumber n)
    then show ?thesis using res el inv by (auto simp: scrollTo_def)
  next
    case (ArgObject target)
    then obtain s ex where sr: "scrollToSearch inst (el_clientHeight el) target = Inr (s, ex)"
      and eq: "inst' = applyBest inst el (best s)"
      using res el by (auto simp: scrollTo_def split: sum.splits)
    have "\<forall>c r. best s = Some (c, r) \<longrightarrow> windowInv r"
      using scrollToSearch_best_window [OF sane sr] by blast
    then show ?thesis unfolding eq using applyBest_inv [OF inv] by blast
  qed
qed

lemma measureStart_inv:
  assumes "stateInv (state inst)" and "status (state inst) = MEASURE_START"
  shows "stateInv (state (measureStart inst el)) \<and> props (measureStart inst el) = props inst"
  using assms
  by (simp add: measureStart_def Let_def stateInv_def windowInv_def collectItemHeights_frame)

lemma componentDidUpdate_inv:
  assumes sane: "saneProps (props inst)" and inv: "stateInv (state inst)"
    and res: "componentDidUpdate inst = Inr inst'"
  shows "stateInv (state inst') \<and> props inst' = props inst"
proof (cases "disabled (props inst)")
  case True
  then show ?thesis using res inv by (simp add: componentDidUpdate_def)
next
  case False
  then obtain inst1 inst2 where m: "didUpdateMeasure inst = Inr inst1"
    and r: "didUpdateReconcile inst1 = Inr inst2"
    and eq: "inst' = inst2\<lparr> cachedProps := Some (props inst2) \<rparr>"
    using res by (auto simp: componentDidUpdate_def split: sum.splits)
  have i1: "stateInv (state inst1) \<and> props inst1 = props inst"
    using m inv measureStart_inv [of inst]
    by (auto simp: didUpdateMeasure_def split: if_splits option.splits)
  have i2: "stateInv (state inst2) \<and> props inst2 = props inst1"
  proof (cases "lengthChanged inst1")
    case False
    then show ?thesis using r i1 by (simp add: didUpdateReconcile_def)
  next
    case True
    then obtain el where
      st: "scrollTo (ArgObject (diffAnchor (collectItemHeights inst1) el))
             (collectItemHeights inst1) = Inr inst2"
      using r by (auto simp: didUpdateReconcile_def Let_def split: option.splits)
    show ?thesis
      using scrollTo_inv [OF _ _ st] i1 sane by (simp add: collectItemHeights_frame)
  qed
  show ?thesis unfolding eq using i1 i2 by simp
qed

lemma fold_runCallback_frame:
  "state (fold runCallback cbs inst) = state inst
   \<and> props (fold runCallback cbs inst) = props inst"
proof (induction cbs arbitrary: inst)
  case Nil
  show ?case by simp
next
  case (Cons cb cbs)
  show ?case using Cons.IH [of "runCallback cb inst"] by (cases cb) simp_all
qed

lemma animationFrame_frame:
  "state (animationFrame inst) = state inst \<and> props (animationFrame inst) = props inst"
  using fold_runCallback_frame [of "animationFrames inst" "inst\<lparr> animationFrames := [] \<rparr>"]
  by (simp add: animationFrame_def)

lemma step_inv:
  assumes ev: "saneEvent e" and sane: "saneProps (props inst)"
    and inv: "stateInv (state inst)" and res: "step e inst = Inr inst'"
  shows "saneProps (props inst') \<and> stateInv (state inst')"
proof (cases e)
  case Mount
  then obtain el where "listRef inst = Some el"
    and "onScroll (inst\<lparr> listRef := Some (el\<lparr> el_scrollTop := 0 \<rparr>) \<rparr>) = Inr inst'"
    using res by (auto simp: componentDidMount_def split: option.splits)
  then show ?thesis
    using onScroll_inv [of "inst\<lparr> listRef := Some (el\<lparr> el_scrollTop := 0 \<rparr>) \<rparr>" inst'] sane inv
    by simp
next
  case (Scroll x)
  then show ?thesis
    using res sane inv
      onScroll_inv [of "inst\<lparr> listRef := map_option (\<lambda>el. el\<lparr> el_scrollTop := x \<rparr>) (listRef inst) \<rparr>" inst']
    by simp
next
  case (NewProps p)
  then show ?thesis
    using res ev inv componentDidUpdate_inv [of "inst\<lparr> props := p \<rparr>" inst'] by simp
next
  case Update
  then show ?thesis using res sane inv componentDidUpdate_inv [of inst inst'] by simp
next
  case (ScrollTo arg)
  then show ?thesis using res sane inv scrollTo_inv [of inst arg inst'] by simp
next
  case Frame
  then show ?thesis using res sane inv animationFrame_frame [of inst] by auto
next
  case (Layout el els)
  then show ?thesis using res sane inv by auto
qed

lemma run_inv:
  assumes "list_all saneEvent es" and "saneProps (props inst)"
    and "stateInv (state inst)" and "run es inst = Inr inst'"
  shows "saneProps (props inst') \<and> stateInv (state inst')"
  using assms
proof (induction es arbitrary: inst)
  case Nil
  then show ?case by simp
next
  case (Cons e es)
  then obtain inst1 where s: "step e inst = Inr inst1" and r: "run es inst1 = Inr inst'"
    by (auto split: sum.splits)
  have "saneProps (props inst1) \<and> stateInv (state inst1)"
    using step_inv [OF _ Cons.prems(2,3) s] Cons.prems(1) by simp
  then show ?case using Cons.IH [OF _ _ _ r] Cons.prems(1) by simp
qed

subsection \<open>The first divergence of two collections\<close>


subsection \<open>Searches that find no window, and the number of candidates\<close>







subsection \<open>The lock across animation frames\<close>

lemma fold_runCallback_lock:
  "lockScroll (fold runCallback cbs inst)
     = (if SetLockFalse \<in> set cbs then False else lockScroll inst)"
proof (induction cbs arbitrary: inst)
  case Nil
  show ?case by simp
next
  case (Cons cb cbs)
  show ?case using Cons.IH [of "runCallback cb inst"] by (cases cb) auto
qed

lemma fold_runCallback_requested:
  "set (animationFrames (fold runCallback cbs inst))
     = set (animationFrames inst) \<union> {cb. RequestFrame cb \<in> set cbs}"
proof (induction cbs arbitrary: inst)
  case Nil
  show ?case by simp
next
  case (Cons cb cbs)
  show ?case using Cons.IH [of "runCallback cb inst"] by (cases cb) auto
qed

lemma animationFrame_lock:
  "lockScroll (animationFrame inst)
     = (if SetLockFalse \<in> set (animationFrames inst) then False else lockScroll inst)"
  by (simp add: animationFrame_def fold_runCallback_lock)

lemma animationFrame_requested:
  "set (animationFrames (animationFrame inst)) = {cb. RequestFrame cb \<in> set (animationFrames inst)}"
  by (simp add: animationFrame_def fold_runCallback_requested)


subsection \<open>Claims\<close>

text \<open>C6: for every scroll offset, scrollable height and viewport height the scroll
  fraction is 0 when \<open>scrollableHeight - viewportHeight\<close> is zero or negative, and
  otherwise \<open>scrollOffset / max(1, scrollableHeight - viewportHeight)\<close> clamped to [0,1],
  a formula that also gives the fraction of every offset inside the scroll range when
  there is nothing to scroll. The divisor is at least 1, so nothing is divided by zero. The
  fraction lies in [0,1], does not decrease with the offset, is 0 at offset 0 and 1 at the
  largest offset.\<close>

theorem C6_scrollFraction:
  "(H - h \<le> 0 \<longrightarrow> getScrollPercentage s H h = 0)
   \<and> (0 < H - h \<longrightarrow> getScrollPercentage s H h = max 0 (min 1 (s / max 1 (H - h))))
   \<and> (0 \<le> s \<and> s \<le> max 0 (H - h) \<longrightarrow>
        getScrollPercentage s H h = max 0 (min 1 (s / max 1 (H - h))))
   \<and> 1 \<le> max 1 (H - h)
   \<and> 0 \<le> getScrollPercentage s H h \<and> getScrollPercentage s H h \<le> 1
   \<and> getScrollPercentage 0 H h = 0
   \<and> (1 \<le> H - h \<longrightarrow> getScrollPercentage (H - h) H h = 1)
   \<and> (s \<le> s' \<longrightarrow> getScrollPercentage s H h \<le> getScrollPercentage s' H h)"
proof -
  have deg: "H - h \<le> 0 \<longrightarrow> getScrollPercentage s H h = 0"
    by (simp add: getScrollPercentage_def)
  have reg: "0 < H - h \<longrightarrow> getScrollPercentage s H h = max 0 (min 1 (s / max 1 (H - h)))"
    by (simp add: getScrollPercentage_def clamp01_def)
  have inside: "0 \<le> s \<and> s \<le> max 0 (H - h) \<longrightarrow>
        getScrollPercentage s H h = max 0 (min 1 (s / max 1 (H - h)))"
  proof
    assume a: "0 \<le> s \<and> s \<le> max 0 (H - h)"
    show "getScrollPercentage s H h = max 0 (min 1 (s / max 1 (H - h)))"
    proof (cases "H - h \<le> 0")
      case True
      then have "s = 0" using a by simp
      then show ?thesis using True by (simp add: getScrollPercentage_def)
    next
      case False
      then show ?thesis using reg by simp
    qed
  qed
  have zero: "getScrollPercentage 0 H h = 0"
    by (simp add: getScrollPercentage_def clamp01_def)
  have top: "1 \<le> H - h \<longrightarrow> getScrollPercentage (H - h) H h = 1"
    by (simp add: getScrollPercentage_def clamp01_def)
  have mono: "s \<le> s' \<longrightarrow> getScrollPercentage s H h \<le> getScrollPercentage s' H h"
  proof
    assume le: "s \<le> s'"
    have "s / max 1 (H - h) \<le> s' / max 1 (H - h)"
      using le by (intro divide_right_mono) simp_all
    then have "clamp01 (s / max 1 (H - h)) \<le> clamp01 (s' / max 1 (H - h))"
      unfolding clamp01_def by linarith
    then show "getScrollPercentage s H h \<le> getScrollPercentage s' H h"
      by (simp add: getScrollPercentage_def)
  qed
  show ?thesis
    using deg reg inside zero top mono getScrollPercentage_bounds [of s H h] by simp
qed

theorem C6_scrollFraction_witness:
  "(10::rat) - 10 \<le> 0 \<and> getScrollPercentage 0 10 10 = 0
   \<and> (0::rat) < 15000 - 300 \<and> (0::rat) \<le> 7350 \<and> (7350::rat) \<le> max 0 (15000 - 300)
   \<and> getScrollPercentage 7350 15000 300 = 1 / 2
   \<and> (1::rat) \<le> 15000 - 300 \<and> getScrollPercentage (15000 - 300) 15000 300 = 1
   \<and> (7350::rat) \<le> 14700
   \<and> getScrollPercentage 7350 15000 300 \<le> getScrollPercentage 14700 15000 300"
proof -
  have a: "getScrollPercentage 0 10 10 = 0"
    using C6_scrollFraction [of 10 10 0 0] by simp
  have b: "getScrollPercentage 7350 15000 300 = 1 / 2"
    using C6_scrollFraction [of 15000 300 7350 14700] by simp
  have c: "getScrollPercentage (15000 - 300) 15000 300 = 1"
    using C6_scrollFraction [of 15000 300 7350 14700] by simp
  have d: "getScrollPercentage 7350 15000 300 \<le> getScrollPercentage 14700 15000 300"
    using C6_scrollFraction [of 15000 300 7350 14700] by simp
  show ?thesis
    using a b c d by simp
qed

text \<open>C8: with 1000 items, assumed item height 15 and viewport height 300 the visible
  capacity is \<open>ceil(300 / 15) = 20\<close>; at scroll fraction 1/2 the Range Locator returns the
  located index 500 and the render window [490, 510], and that is what a scroll event at
  the middle of the container stores in the state.\<close>

theorem C8_scenario:
  "visibleCount (Some 300) 15 = Some 20
   \<and> getRangeIndex (1 / 2) 1000 20
       = \<lparr> itemIndex = 500, itemOffsetPtg = 0, startIndex = 490, endIndex = 510 \<rparr>
   \<and> (case onScroll scenario of
         Inl e \<Rightarrow> False
       | Inr inst \<Rightarrow> itemIndex (state inst) = 500 \<and> startIndex (state inst) = 490
                     \<and> endIndex (state inst) = 510 \<and> status (state inst) = MEASURE_START)"
proof -
  have v: "visibleCount (Some 300) 15 = Some 20"
    by (simp add: visibleCount_def)
  have r: "getRangeIndex (1 / 2) 1000 20
       = \<lparr> itemIndex = 500, itemOffsetPtg = 0, startIndex = 490, endIndex = 510 \<rparr>"
    by (simp add: getRangeIndex_def Let_def)
  have p: "getScrollPercentage 7350 15000 300 = 1 / 2"
    by (simp add: getScrollPercentage_def clamp01_def)
  have "onScroll scenario
      = Inr (scenario\<lparr> state := setRange 7350 (getRangeIndex (1 / 2) 1000 20) (state scenario) \<rparr>)"
    by (simp add: onScroll_def scenario_def newList_def initialState_def v
          getElementScrollPercentage_def p)
  then show ?thesis
    using v r by (simp add: setRange_def)
qed

text \<open>C10: \<open>scrollTo\<close> with a number sets the scroll offset of the container to exactly
  that number and changes nothing else in the same call: the Positioning State, the Height
  Ledger, the re-entry lock, the pending frame callbacks, the cached props, the props and
  the mounted items are as before.\<close>

theorem C10_scrollTo_number:
  assumes "listRef inst = Some el"
  shows "\<exists>inst'. scrollTo (ArgNumber x) inst = Inr inst'
           \<and> listRef inst' = Some (el\<lparr> el_scrollTop := x \<rparr>)
           \<and> state inst' = state inst
           \<and> itemElementHeights inst' = itemElementHeights inst
           \<and> lockScroll inst' = lockScroll inst
           \<and> animationFrames inst' = animationFrames inst
           \<and> cachedProps inst' = cachedProps inst
           \<and> props inst' = props inst
           \<and> itemElements inst' = itemElements inst"
  using assms by (simp add: scrollTo_def)

theorem C10_scrollTo_number_witness:
  "listRef small = Some smallElement
   \<and> (\<exists>inst'. scrollTo (ArgNumber 7) small = Inr inst'
           \<and> listRef inst' = Some (smallElement\<lparr> el_scrollTop := 7 \<rparr>)
           \<and> state inst' = state small
           \<and> itemElementHeights inst' = itemElementHeights small
           \<and> lockScroll inst' = lockScroll small
           \<and> animationFrames inst' = animationFrames small
           \<and> cachedProps inst' = cachedProps small
           \<and> props inst' = props small
           \<and> itemElements inst' = itemElements small)"
proof -
  have h: "listRef small = Some smallElement"
    by (simp add: small_def newList_def)
  show ?thesis
    using h C10_scrollTo_number [OF h, of 7] by simp
qed

text \<open>C7, as the specification states it, does not hold: an update pass with disabled
  props returns before \<open>this.cachedProps = this.props\<close>, so the cached props keep the
  props of the last enabled pass (here the empty data source) and are not updated to the
  latest props.\<close>

theorem C7_counterexample:
  "(case run [Update, NewProps disabledProps] (newList emptyProps (Some smallElement)) of
      Inl e \<Rightarrow> False
    | Inr inst \<Rightarrow>
        disabled (props inst) \<and> dataSource (props inst) = [7]
        \<and> map_option dataSource (cachedProps inst) = Some [])"
  by (simp add: componentDidUpdate_def didUpdateMeasure_def didUpdateReconcile_def
        lengthChanged_def prevDataSourceOf_def newList_def initialState_def
        emptyProps_def disabledProps_def)

text \<open>C7, amended: when \<open>disabled\<close> is true, every update pass and every scroll event
  of the attached container performs no recomputation and leaves the whole instance as it
  is, the Positioning State, the Height Ledger and the cached props included; the cached
  props are not updated while disabled.\<close>

theorem C7_disabled_frozen:
  assumes "disabled (props inst)"
  shows "componentDidUpdate inst = Inr inst
       \<and> (listRef inst \<noteq> None \<longrightarrow> onScroll inst = Inr inst)
       \<and> (\<forall>x. listRef inst \<noteq> None \<longrightarrow>
            (\<exists>inst'. step (Scroll x) inst = Inr inst' \<and> state inst' = state inst
                      \<and> cachedProps inst' = cachedProps inst
                      \<and> itemElementHeights inst' = itemElementHeights inst))"
  using assms by (auto simp: componentDidUpdate_def onScroll_def split: option.splits)

theorem C7_disabled_frozen_witness:
  "disabled (props (newList disabledProps (Some smallElement)))
   \<and> componentDidUpdate (newList disabledProps (Some smallElement))
       = Inr (newList disabledProps (Some smallElement))
   \<and> onScroll (newList disabledProps (Some smallElement))
       = Inr (newList disabledProps (Some smallElement))"
proof -
  have h: "disabled (props (newList disabledProps (Some smallElement)))"
    by (simp add: newList_def disabledProps_def)
  have r: "listRef (newList disabledProps (Some smallElement)) \<noteq> None"
    by (simp add: newList_def)
  show ?thesis
    using h r C7_disabled_frozen [OF h] by simp
qed

text \<open>C9: when the viewport height is undefined the list is to render every item of
  the collection and to skip the positioning engine. \<open>render\<close> does materialize every
  item, from index 0, and attaches no ref; but \<open>componentDidMount\<close> writes
  \<open>this.listRef.current.scrollTop\<close> and calls \<open>onScroll\<close> whatever the height, so with
  the ref unattached mounting throws.\<close>

theorem C9_mount_throws:
  "height (props unconstrained) = None
   \<and> children (render unconstrained)
       = [(0, ItemKey 5, 5), (1, ItemKey 6, 6), (2, ItemKey 7, 7)]
   \<and> \<not> refBound (render unconstrained) \<and> \<not> onScrollBound (render unconstrained)
   \<and> listRef unconstrained = None
   \<and> step Mount unconstrained = Inl TypeError"
proof -
  have h: "height (props unconstrained) = None"
    by (simp add: unconstrained_def newList_def)
  have "renderChildren (props unconstrained) (dataSource (props unconstrained)) 0
      = [(0, ItemKey 5, 5), (1, ItemKey 6, 6), (2, ItemKey 7, 7)]"
    by (simp add: unconstrained_def newList_def renderChildren_def getIndexKey_def
          getItemKey_def upt_rec)
  moreover have "step Mount unconstrained = Inl TypeError"
    by (simp add: componentDidMount_def unconstrained_def newList_def)
  moreover have "listRef unconstrained = None"
    by (simp add: unconstrained_def newList_def)
  ultimately show ?thesis
    using h render_unconstrained [OF h] by simp
qed

text \<open>C1, as the specification states it, does not hold: at scroll fraction 1 the located
  item is the sentinel \<open>n\<close>, one behind the last index \<open>n - 1\<close> of the window, both in
  the output of the Range Locator and in the Positioning State after scrolling to the
  bottom.\<close>

theorem C1_counterexample:
  "(0::rat) \<le> 1 \<and> (1::int) \<le> 1000 \<and> (1::int) \<le> 20
   \<and> itemIndex (getRangeIndex 1 1000 20) = 1000
   \<and> endIndex (getRangeIndex 1 1000 20) = 999
   \<and> (case step (Scroll 14700) scenario of
         Inl e \<Rightarrow> False
       | Inr inst \<Rightarrow> status (state inst) = MEASURE_START
                     \<and> itemIndex (state inst) = 1000 \<and> endIndex (state inst) = 999)"
proof -
  have v: "visibleCount (Some 300) 15 = Some 20"
    by (simp add: visibleCount_def)
  have p: "getScrollPercentage 14700 15000 300 = 1"
    by (simp add: getScrollPercentage_def clamp01_def)
  have r: "itemIndex (getRangeIndex 1 1000 20) = 1000" "endIndex (getRangeIndex 1 1000 20) = 999"
    by (simp_all add: getRangeIndex_def Let_def)
  have "step (Scroll 14700) scenario
      = Inr (scenario\<lparr> listRef := Some \<lparr> el_scrollTop = 14700, el_scrollHeight = 15000,
                                           el_clientHeight = 300 \<rparr>,
                        state := setRange 14700 (getRangeIndex 1 1000 20) (state scenario) \<rparr>)"
    by (simp add: onScroll_def scenario_def newList_def initialState_def v
          getElementScrollPercentage_def p)
  then show ?thesis
    using r by (simp add: setRange_def)
qed

text \<open>C1, amended: for every scroll fraction \<open>f\<close> in [0,1], item count \<open>n \<ge> 1\<close> and
  visible capacity \<open>v \<ge> 1\<close> the Range Locator output satisfies
  \<open>0 \<le> startIndex \<le> endIndex \<le> n - 1\<close> and
  \<open>startIndex \<le> locatedItemIndex \<le> endIndex + 1\<close>, with \<open>locatedItemIndex \<le> endIndex\<close>
  whenever \<open>f < 1\<close>; at \<open>f = 1\<close> the located item is the sentinel \<open>n = endIndex + 1\<close>.
  In every state the component reaches from its initial state by events with sane props,
  while the status is not \<open>NONE\<close>, \<open>startIndex \<le> itemIndex \<le> endIndex + 1\<close>.\<close>

theorem C1_window:
  "(0 \<le> f \<and> f \<le> 1 \<and> 1 \<le> n \<and> 1 \<le> v \<longrightarrow>
      0 \<le> startIndex (getRangeIndex f n v)
      \<and> startIndex (getRangeIndex f n v) \<le> endIndex (getRangeIndex f n v)
      \<and> endIndex (getRangeIndex f n v) \<le> n - 1
      \<and> startIndex (getRangeIndex f n v) \<le> itemIndex (getRangeIndex f n v)
      \<and> itemIndex (getRangeIndex f n v) \<le> endIndex (getRangeIndex f n v) + 1
      \<and> (f < 1 \<longrightarrow> itemIndex (getRangeIndex f n v) \<le> endIndex (getRangeIndex f n v))
      \<and> (f = 1 \<longrightarrow> itemIndex (getRangeIndex f n v) = n
                     \<and> endIndex (getRangeIndex f n v) = n - 1))
   \<and> (saneProps p \<and> list_all saneEvent es \<and> run es (newList p el) = Inr inst
        \<and> status (state inst) \<noteq> NONE \<longrightarrow>
      startIndex (state inst) \<le> itemIndex (state inst)
      \<and> itemIndex (state inst) \<le> endIndex (state inst) + 1)"
proof (intro conjI impI)
  assume a: "0 \<le> f \<and> f \<le> 1 \<and> 1 \<le> n \<and> 1 \<le> v"
  then have n: "0 \<le> n" and v: "- 1 \<le> v" by simp_all
  show "0 \<le> startIndex (getRangeIndex f n v)"
    using getRangeIndex_window(1) [OF n v] .
  show "startIndex (getRangeIndex f n v) \<le> endIndex (getRangeIndex f n v)"
    using getRangeIndex_ordered [of n v f] a by simp
  show "endIndex (getRangeIndex f n v) \<le> n - 1"
    using getRangeIndex_window(5) [OF n v] .
  show "startIndex (getRangeIndex f n v) \<le> itemIndex (getRangeIndex f n v)"
    using getRangeIndex_window(2) [OF n v] .
  show "itemIndex (getRangeIndex f n v) \<le> endIndex (getRangeIndex f n v) + 1"
    using getRangeIndex_window(3) [OF n v] .
  show "itemIndex (getRangeIndex f n v) \<le> endIndex (getRangeIndex f n v)" if "f < 1"
    using getRangeIndex_located [of f n v] a that by simp
  show "itemIndex (getRangeIndex f n v) = n" if "f = 1"
    using getRangeIndex_bottom(1) [of n v] a that by simp
  show "endIndex (getRangeIndex f n v) = n - 1" if "f = 1"
    using getRangeIndex_bottom(2) [of n v] a that by simp
next
  assume a: "saneProps p \<and> list_all saneEvent es \<and> run es (newList p el) = Inr inst
        \<and> status (state inst) \<noteq> NONE"
  have "stateInv (state (newList p el))"
    by (simp add: stateInv_def newList_def initialState_def)
  then have "stateInv (state inst)"
    using run_inv [of es "newList p el" inst] a by (simp add: newList_def)
  then show "startIndex (state inst) \<le> itemIndex (state inst)"
    and "itemIndex (state inst) \<le> endIndex (state inst) + 1"
    using a by (simp_all add: stateInv_def windowInv_def)
qed

theorem C1_window_witness:
  "(0::rat) \<le> 1 / 2 \<and> (1 / 2 :: rat) \<le> 1 \<and> (1::int) \<le> 1000 \<and> (1::int) \<le> 20
   \<and> (1 / 2 :: rat) < 1
   \<and> startIndex (getRangeIndex (1 / 2) 1000 20) \<le> itemIndex (getRangeIndex (1 / 2) 1000 20)
   \<and> itemIndex (getRangeIndex (1 / 2) 1000 20) \<le> endIndex (getRangeIndex (1 / 2) 1000 20)
   \<and> saneProps smallProps \<and> list_all saneEvent [Mount, Scroll 5 :: (nat, nat) event]
   \<and> (case run [Mount, Scroll 5] (newList smallProps (Some smallElement)) of
         Inl e \<Rightarrow> False
       | Inr inst \<Rightarrow> status (state inst) \<noteq> NONE
                     \<and> startIndex (state inst) \<le> itemIndex (state inst)
                     \<and> itemIndex (state inst) \<le> endIndex (state inst) + 1)"
proof -
  have sp: "saneProps smallProps"
    by (simp add: saneProps_def smallProps_def)
  have se: "list_all saneEvent [Mount, Scroll 5 :: (nat, nat) event]"
    by simp
  have "\<exists>X. run [Mount, Scroll 5] (newList smallProps (Some smallElement)) = Inr X
           \<and> status (state X) \<noteq> NONE"
    by (simp add: componentDidMount_def onScroll_def newList_def initialState_def
          smallProps_def smallElement_def visibleCount_def setRange_def)
  then obtain X where X: "run [Mount, Scroll 5] (newList smallProps (Some smallElement)) = Inr X"
    and st: "status (state X) \<noteq> NONE"
    by blast
  have "startIndex (state X) \<le> itemIndex (state X)
      \<and> itemIndex (state X) \<le> endIndex (state X) + 1"
    using C1_window [of "1 / 2" 1000 20 smallProps "[Mount, Scroll 5]" "Some smallElement" X]
      sp se X st by blast
  moreover have "startIndex (getRangeIndex (1 / 2) 1000 20) \<le> itemIndex (getRangeIndex (1 / 2) 1000 20)
    \<and> itemIndex (getRangeIndex (1 / 2) 1000 20) \<le> endIndex (getRangeIndex (1 / 2) 1000 20)"
    using C1_window [of "1 / 2" 1000 20 smallProps "[Mount, Scroll 5]" "Some smallElement" X]
    by simp
  ultimately show ?thesis
    using sp se X st by simp
qed









text \<open>C5, as the specification states it, does not hold: a release scheduled by an
  earlier application of the Scroll-To Search is not cancelled. After two applications one
  frame apart and two frames the lock is free while the release of the second application
  is still pending; a third application arms the lock, and the very next animation frame
  releases it.\<close>

theorem C5_counterexample:
  "(case run [ScrollTo (ArgObject (RelativeScroll 0 0)), Frame,
              ScrollTo (ArgObject (RelativeScroll 0 0)), Frame] brief of
      Inl e \<Rightarrow> False
    | Inr inst \<Rightarrow>
        \<not> lockScroll inst
        \<and> (case scrollTo (ArgObject (RelativeScroll 0 0)) inst of
              Inl e \<Rightarrow> False
            | Inr inst' \<Rightarrow> lockScroll inst' \<and> \<not> lockScroll (animationFrame inst')))"
  by code_simp

text \<open>C5, amended: a scroll event is a no-op when the scroll offset of the container
  equals the one recorded in the state, and whenever the lock is held, whatever the new
  offset. When the Scroll-To Search applies a best candidate the lock is armed and its
  release is scheduled behind two successive animation frames: the lock is released after
  the second frame, and it is still held after the first one provided no release scheduled
  by an earlier application is pending.\<close>

theorem C5_scroll_lock:
  "(listRef inst = Some el \<and> scrollTop (state inst) = Some (el_scrollTop el) \<longrightarrow>
      onScroll inst = Inr inst)
   \<and> (listRef inst = Some el \<and> lockScroll inst \<longrightarrow>
        onScroll inst = Inr inst
        \<and> (\<forall>x. \<exists>inst'. step (Scroll x) inst = Inr inst' \<and> state inst' = state inst
                        \<and> lockScroll inst'))
   \<and> (listRef inst = Some el \<and> scrollToSearch inst (el_clientHeight el) arg = Inr (s, ex)
        \<and> best s = Some b \<longrightarrow>
        (\<exists>inst'. scrollTo (ArgObject arg) inst = Inr inst'
           \<and> lockScroll inst'
           \<and> (SetLockFalse \<notin> set (animationFrames inst) \<longrightarrow> lockScroll (animationFrame inst'))
           \<and> \<not> lockScroll (animationFrame (animationFrame inst'))))"
proof (intro conjI impI)
  assume "listRef inst = Some el \<and> scrollTop (state inst) = Some (el_scrollTop el)"
  then show "onScroll inst = Inr inst" by (simp add: onScroll_def)
next
  assume a: "listRef inst = Some el \<and> lockScroll inst"
  then show "onScroll inst = Inr inst" by (simp add: onScroll_def)
  show "\<forall>x. \<exists>inst'. step (Scroll x) inst = Inr inst' \<and> state inst' = state inst
                        \<and> lockScroll inst'"
    using a by (simp add: onScroll_def)
next
  assume a: "listRef inst = Some el \<and> scrollToSearch inst (el_clientHeight el) arg = Inr (s, ex)
        \<and> best s = Some b"
  obtain c r where b: "b = (c, r)" by (cases b)
  let ?inst' = "applyBest inst el (Some (c, r))"
  have st: "scrollTo (ArgObject arg) inst = Inr ?inst'"
    using a b by (simp add: scrollTo_def)
  have lk: "lockScroll ?inst'"
    by (simp add: applyBest_def)
  have q: "animationFrames ?inst' = animationFrames inst @ [RequestFrame SetLockFalse]"
    by (simp add: applyBest_def)
  have f1: "SetLockFalse \<notin> set (animationFrames inst) \<longrightarrow> lockScroll (animationFrame ?inst')"
    using lk q by (simp add: animationFrame_lock)
  have "SetLockFalse \<in> set (animationFrames (animationFrame ?inst'))"
    using q by (simp add: animationFrame_requested)
  then have f2: "\<not> lockScroll (animationFrame (animationFrame ?inst'))"
    by (simp add: animationFrame_lock)
  show "\<exists>inst'. scrollTo (ArgObject arg) inst = Inr inst'
           \<and> lockScroll inst'
           \<and> (SetLockFalse \<notin> set (animationFrames inst) \<longrightarrow> lockScroll (animationFrame inst'))
           \<and> \<not> lockScroll (animationFrame (animationFrame inst'))"
    using st lk f1 f2 by blast
qed

theorem C5_scroll_lock_witness:
  "listRef small = Some smallElement
   \<and> SetLockFalse \<notin> set (animationFrames small)
   \<and> (\<exists>inst'. scrollTo (ArgObject (RelativeScroll 0 0)) small = Inr inst'
          \<and> lockScroll inst'
          \<and> lockScroll (animationFrame inst')
          \<and> \<not> lockScroll (animationFrame (animationFrame inst')))
   \<and> (\<exists>inst'. step (Scroll 0) (small\<lparr> state := (state small)\<lparr> scrollTop := Some 0 \<rparr> \<rparr>)
                 = Inr inst'
          \<and> state inst' = (state small)\<lparr> scrollTop := Some 0 \<rparr>)"
proof -
  have ref: "listRef small = Some smallElement"
    by (simp add: small_def newList_def)
  have q: "SetLockFalse \<notin> set (animationFrames small)"
    by (simp add: small_def newList_def)
  have "case scrollToSearch small 10 (RelativeScroll 0 0) of
          Inl e \<Rightarrow> False
        | Inr (s, ex) \<Rightarrow> (case best s of None \<Rightarrow> False | Some b \<Rightarrow> True)"
    by code_simp
  then obtain s ex b where
    res: "scrollToSearch small (el_clientHeight smallElement) (RelativeScroll 0 0) = Inr (s, ex)"
    and b: "best s = Some b"
    by (auto simp: smallElement_def split: sum.splits option.splits)
  have lock: "\<exists>inst'. scrollTo (ArgObject (RelativeScroll 0 0)) small = Inr inst'
          \<and> lockScroll inst'
          \<and> lockScroll (animationFrame inst')
          \<and> \<not> lockScroll (animationFrame (animationFrame inst'))"
    using C5_scroll_lock [of small smallElement "RelativeScroll 0 0" s ex b] ref q res b
    by blast
  let ?same = "small\<lparr> state := (state small)\<lparr> scrollTop := Some 0 \<rparr> \<rparr>"
  have same: "listRef ?same = Some smallElement
      \<and> scrollTop (state ?same) = Some (el_scrollTop smallElement)"
    by (simp add: small_def newList_def smallElement_def)
  have "onScroll ?same = Inr ?same"
    using C5_scroll_lock [of ?same smallElement "RelativeScroll 0 0" s ex b] same by blast
  then have "step (Scroll 0) ?same = Inr ?same"
    by (simp add: small_def newList_def smallElement_def)
  then show ?thesis
    using ref q lock by simp
qed


end
